theory Spec2Isabelle
  imports Main "HOL-Library.Word" "HOL-Library.Sublist"
begin

unbundle bit_operations_syntax

section \<open>Errors (client/errors.go)\<close>

text \<open>
  The package's sentinel errors are distinct values. \<open>New msg\<close> stands for an error made
  by \<open>errors.New\<close>, by \<open>fmt.Errorf\<close> without \<open>%w\<close>, or by a library (JSON, network);
  \<open>Wrap msg e\<close> stands for \<open>fmt.Errorf("msg: %w", e)\<close>. \<open>ContextCanceled\<close> is what
  \<open>ctx.Err()\<close> returns once the context is done.
\<close>

datatype error =
    ErrInvalidChatID
  | ErrEmptyMessage
  | ErrInvalidMessage
  | ErrRequestFailed
  | ErrUnauthorized
  | ErrRateLimit
  | ErrWebhookFailed
  | ErrSignatureInvalid
  | ContextCanceled
  | New string
  | Wrap string error

text \<open>\<open>errors.Is\<close>: the error itself or any error in its \<open>Unwrap\<close> chain equals the target.\<close>

fun errors_Is :: "error \<Rightarrow> error \<Rightarrow> bool" where
  "errors_Is (Wrap m e) t = (Wrap m e = t \<or> errors_Is e t)"
| "errors_Is e t = (e = t)"

section \<open>The retry policy (client/retry.go)\<close>

text \<open>Constants of client/client.go; durations are in milliseconds.\<close>

definition maxRetries :: nat where
  "maxRetries = 3"

definition retryDelay :: nat where
  "retryDelay = 1000"

definition rateLimitDelay :: nat where
  "rateLimitDelay = 5000"

text \<open>
  The world an operation runs in: the log of every \<open>time.Sleep\<close> (oldest first) and the
  state the closure captures. An operation \<open>func() error\<close> is a transformer of the world
  that returns \<open>None\<close> for \<open>nil\<close>.
\<close>

record 's world =
  slept :: "nat list"
  ext :: 's

type_synonym 's operation = "'s world \<Rightarrow> error option \<times> 's world"

definition sleep :: "nat \<Rightarrow> 's world \<Rightarrow> 's world" where
  "sleep d w = w\<lparr>slept := slept w @ [d]\<rparr>"

definition elapsed :: "'s world \<Rightarrow> nat" where
  "elapsed w = sum_list (slept w)"

text \<open>
  The loop of \<open>retryRequest\<close>, from iteration \<open>i\<close> on. \<open>ctx i\<close> is the outcome of the
  poll of \<open>ctx.Done()\<close> at the top of iteration \<open>i\<close>. The result is the returned error,
  the log of invocations of \<open>fn\<close> (the elapsed sleep time at each one) and the world.
\<close>

function retry_loop ::
  "(nat \<Rightarrow> bool) \<Rightarrow> 's operation \<Rightarrow> nat \<Rightarrow> error option \<Rightarrow> nat list \<Rightarrow> 's world
     \<Rightarrow> error option \<times> nat list \<times> 's world" where
  "retry_loop ctx fn i lastErr calls w =
     (if i < maxRetries then
        if ctx i then (Some ContextCanceled, calls, w)
        else
          let r = fn w; calls' = calls @ [elapsed w] in
          (case fst r of
             None \<Rightarrow> (None, calls', snd r)
           | Some err \<Rightarrow>
               if errors_Is err ErrInvalidChatID \<or> errors_Is err ErrUnauthorized
               then (Some err, calls', snd r)
               else retry_loop ctx fn (i + 1) (Some err) calls'
                      (if i < maxRetries - 1 then sleep retryDelay (snd r) else snd r))
      else (lastErr, calls, w))"
  by pat_completeness auto
termination
  by (relation "measure (\<lambda>(ctx, fn, i, lastErr, calls, w). maxRetries - i)") auto

declare retry_loop.simps [simp del]

definition retryRequest ::
  "(nat \<Rightarrow> bool) \<Rightarrow> 's operation \<Rightarrow> 's world \<Rightarrow> error option \<times> nat list \<times> 's world" where
  "retryRequest ctx fn w = retry_loop ctx fn 0 None [] w"

text \<open>An error after which the loop goes on: neither sentinel is in its chain.\<close>

definition retryable :: "error \<Rightarrow> bool" where
  "retryable err = (\<not> errors_Is err ErrInvalidChatID \<and> \<not> errors_Is err ErrUnauthorized)"


section \<open>Transport pieces used by the operations (client/client.go)\<close>

text \<open>
  Go strings and byte slices are byte sequences: \<open>string\<close>, one \<open>char\<close> per byte.
  A failure inside a library (network, reading a body, JSON) is carried as its message;
  it becomes a \<open>New\<close> error, since a library error is never one of the package's sentinels.
\<close>

datatype http_result =
    DoFailed string
  | Response nat "string + string"

text \<open>\<open>err.Error()\<close>.\<close>

fun Error :: "error \<Rightarrow> string" where
  "Error ErrInvalidChatID = ''invalid chat ID''"
| "Error ErrEmptyMessage = ''message cannot be empty''"
| "Error ErrInvalidMessage = ''invalid message type''"
| "Error ErrRequestFailed = ''request failed''"
| "Error ErrUnauthorized = ''unauthorized''"
| "Error ErrRateLimit = ''rate limit exceeded''"
| "Error ErrWebhookFailed = ''webhook processing failed''"
| "Error ErrSignatureInvalid = ''invalid webhook signature''"
| "Error ContextCanceled = ''context canceled''"
| "Error (New m) = m"
| "Error (Wrap m e) = m @ '': '' @ Error e"

text \<open>The verb \<open>%d\<close> of \<open>fmt\<close>.\<close>

definition digit :: "nat \<Rightarrow> char" where
  "digit n = ''0123456789'' ! n"

function itoa_nat :: "nat \<Rightarrow> string" where
  "itoa_nat n = (if n < 10 then [digit n] else itoa_nat (n div 10) @ [digit (n mod 10)])"
  by pat_completeness auto
termination
  by (relation "measure (\<lambda>n. n)") auto

declare itoa_nat.simps [simp del]

definition itoa :: "int \<Rightarrow> string" where
  "itoa i = (if i < 0 then ''-'' @ itoa_nat (nat (- i)) else itoa_nat (nat i))"

text \<open>
  \<open>parseAPIError\<close>: the body is read up to 1 MiB; \<open>unmarshal\<close> is \<open>json.Unmarshal\<close> into
  the \<open>{code, message}\<close> document (\<open>None\<close> when it fails).
\<close>

definition maxErrorSize :: nat where
  "maxErrorSize = 2 ^ 20"

definition parseAPIError ::
  "(string \<Rightarrow> (int \<times> string) option) \<Rightarrow> nat \<Rightarrow> string + string \<Rightarrow> error" where
  "parseAPIError unmarshal code body =
     (case body of
        Inl e \<Rightarrow> New (''API error '' @ itoa_nat code @ '' (failed to read body: '' @ e @ '')'')
      | Inr b \<Rightarrow>
          let b' = take maxErrorSize b in
          (case unmarshal b' of
             Some (c, m) \<Rightarrow>
               if m \<noteq> [] then New (''API error '' @ itoa c @ '': '' @ m)
               else New (''API error '' @ itoa_nat code @ '': '' @ b')
           | None \<Rightarrow> New (''API error '' @ itoa_nat code @ '': '' @ b')))"

text \<open>\<open>json.NewDecoder(resp.Body).Decode\<close>: a failed read of the body is a decode failure.\<close>

definition decode_body :: "(string \<Rightarrow> string + 'a) \<Rightarrow> string + string \<Rightarrow> string + 'a" where
  "decode_body dec body = (case body of Inl e \<Rightarrow> Inl e | Inr b \<Rightarrow> dec b)"

section \<open>SendMessage (client/client.go)\<close>

record MessageResponse =
  ID :: string
  Timestamp :: string
  Status :: string

text \<open>
  What the closure of \<open>SendMessage\<close> captures and changes: how many requests the HTTP
  client has sent, and the variable \<open>result\<close>.
\<close>

record send_state =
  requests :: nat
  result :: "MessageResponse option"

definition StatusTooManyRequests :: nat where
  "StatusTooManyRequests = 429"

text \<open>
  The closure passed to \<open>retryRequest\<close>. \<open>newRequest\<close> is the outcome of
  \<open>http.NewRequestWithContext\<close>, \<open>transport n\<close> the outcome of the \<open>n\<close>-th call of
  \<open>httpClient.Do\<close>, \<open>dec\<close> the JSON decoder of the response.
\<close>

definition sendMessage_fn ::
  "string option \<Rightarrow> (nat \<Rightarrow> http_result) \<Rightarrow> (string \<Rightarrow> (int \<times> string) option)
     \<Rightarrow> (string \<Rightarrow> string + MessageResponse) \<Rightarrow> send_state operation" where
  "sendMessage_fn newRequest transport unmarshal dec w =
     (case newRequest of
        Some e \<Rightarrow> (Some (Wrap ''error creating request'' (New e)), w)
      | None \<Rightarrow>
          let w1 = w\<lparr>ext := (ext w)\<lparr>requests := requests (ext w) + 1\<rparr>\<rparr> in
          (case transport (requests (ext w)) of
             DoFailed e \<Rightarrow> (Some (Wrap ''error sending request'' (New e)), w1)
           | Response code body \<Rightarrow>
               if code = StatusTooManyRequests then (Some ErrRateLimit, sleep rateLimitDelay w1)
               else if code \<ge> 400 then (Some (parseAPIError unmarshal code body), w1)
               else (case decode_body dec body of
                       Inl e \<Rightarrow> (Some (Wrap ''error decoding response'' (New e)), w1)
                     | Inr r \<Rightarrow> (None, w1\<lparr>ext := (ext w1)\<lparr>result := Some r\<rparr>\<rparr>))))"

text \<open>\<open>SendMessage\<close>; \<open>marshal\<close> is the outcome of \<open>json.Marshal(message)\<close>.\<close>

definition SendMessage ::
  "(nat \<Rightarrow> bool) \<Rightarrow> string option \<Rightarrow> string option \<Rightarrow> (nat \<Rightarrow> http_result)
     \<Rightarrow> (string \<Rightarrow> (int \<times> string) option) \<Rightarrow> (string \<Rightarrow> string + MessageResponse)
     \<Rightarrow> send_state world \<Rightarrow> (error + MessageResponse option) \<times> send_state world" where
  "SendMessage ctx marshal newRequest transport unmarshal dec w =
     (case marshal of
        Some e \<Rightarrow> (Inl (Wrap ''error marshaling message'' (New e)), w)
      | None \<Rightarrow>
          let w0 = w\<lparr>ext := (ext w)\<lparr>result := None\<rparr>\<rparr>;
              r = retryRequest ctx (sendMessage_fn newRequest transport unmarshal dec) w0
          in (case fst r of
                Some err \<Rightarrow> (Inl err, snd (snd r))
              | None \<Rightarrow> (Inr (result (ext (snd (snd r)))), snd (snd r))))"

section \<open>Webhook ingress (client/webhook.go)\<close>

type_synonym int64 = "64 word"

record WebhookEvent =
  UpdateID :: int64
  EventID :: string
  Type :: string
  ChatID :: string
  Data :: string

text \<open>\<open>hex.EncodeToString\<close>: two lower-case digits per byte.\<close>

definition hextable :: string where
  "hextable = ''0123456789abcdef''"

definition hex_EncodeToString :: "string \<Rightarrow> string" where
  "hex_EncodeToString src =
     concat (map (\<lambda>c. [hextable ! (of_char c div 16), hextable ! (of_char c mod 16)]) src)"

text \<open>
  \<open>subtle.ConstantTimeCompare\<close>: 0 at once when the lengths differ, else the XOR of every
  pair of bytes is OR-ed into one byte, which is compared with 0. \<open>hmac.Equal\<close> is its
  result being 1.
\<close>

definition ConstantTimeCompare :: "string \<Rightarrow> string \<Rightarrow> nat" where
  "ConstantTimeCompare x y =
     (if length x \<noteq> length y then 0
      else if fold (\<lambda>(a, b) v. v OR (of_char a XOR of_char b)) (zip x y) (0 :: 8 word) = 0
      then 1 else 0)"

definition hmac_Equal :: "string \<Rightarrow> string \<Rightarrow> bool" where
  "hmac_Equal mac1 mac2 = (ConstantTimeCompare mac1 mac2 = 1)"

text \<open>
  \<open>VerifySignature\<close>. The keyed hash of the standard library is the parameter \<open>mac\<close>:
  \<open>mac key msg\<close> is \<open>hmac.New(sha256.New, key)\<close>, \<open>Write(msg)\<close>, \<open>Sum(nil)\<close>.
\<close>

definition VerifySignature ::
  "(string \<Rightarrow> string \<Rightarrow> string) \<Rightarrow> string \<Rightarrow> string \<Rightarrow> string \<Rightarrow> bool" where
  "VerifySignature mac secret signature body =
     (if secret = [] then True
      else hmac_Equal signature (hex_EncodeToString (mac secret body)))"

text \<open>
  The request as \<open>ParseRequest\<close> reads it: the method, the header, and the outcome of
  \<open>io.ReadAll(r.Body)\<close>. \<open>Header.Get\<close> is the first value stored under the key, the empty
  string when there is none (\<open>X-Signature\<close> is its own canonical form).
\<close>

record Request =
  Method :: string
  Header :: "string \<rightharpoonup> string list"
  Body :: "string + string"

definition Header_Get :: "(string \<rightharpoonup> string list) \<Rightarrow> string \<Rightarrow> string" where
  "Header_Get h key = (case h key of None \<Rightarrow> [] | Some [] \<Rightarrow> [] | Some (v # vs) \<Rightarrow> v)"

text \<open>\<open>ParseRequest\<close>; \<open>unmarshal\<close> is \<open>json.Unmarshal\<close> into a \<open>WebhookEvent\<close>.\<close>

definition ParseRequest ::
  "(string \<Rightarrow> string \<Rightarrow> string) \<Rightarrow> (string \<Rightarrow> string + WebhookEvent) \<Rightarrow> string \<Rightarrow> Request
     \<Rightarrow> error + WebhookEvent" where
  "ParseRequest mac unmarshal secret r =
     (if Method r \<noteq> ''POST'' then Inl (New ''invalid HTTP method, expected POST'')
      else
        let signature = Header_Get (Header r) ''X-Signature'' in
        if signature = [] then Inl (New ''missing X-Signature header'')
        else
          (case Body r of
             Inl e \<Rightarrow> Inl (Wrap ''error reading body'' (New e))
           | Inr body \<Rightarrow>
               if \<not> VerifySignature mac secret signature body then Inl ErrSignatureInvalid
               else
                 (case unmarshal body of
                    Inl e \<Rightarrow> Inl (Wrap ''error unmarshaling event'' (New e))
                  | Inr event \<Rightarrow>
                      if Type event = [] then Inl (New ''missing event type'')
                      else Inr event)))"


section \<open>The polling worker (client/polling.go)\<close>

record PollingConfig =
  Timeout :: nat
  RetryDelay :: nat
  BufferSize :: nat
  UpdateOffset :: int64

record PollingUpdate =
  pu_UpdateID :: int64
  pu_Event :: "WebhookEvent option"
  pu_Error :: "error option"

definition DefaultPollingConfig :: PollingConfig where
  "DefaultPollingConfig =
     \<lparr>Timeout = 25000, RetryDelay = 1000, BufferSize = 100, UpdateOffset = 0\<rparr>"

text \<open>
  The worker runs beside its consumer and the owner of the context, so it is a transition
  system. The state holds the worker's variables (\<open>config\<close>, whose \<open>UpdateOffset\<close> is the
  cursor, and \<open>pending\<close>, the part of \<open>apiResponse.Result\<close> the inner loop has not passed
  yet; the worker is at the top of the outer loop when \<open>pending\<close> is empty), the channel
  \<open>updates\<close> (its buffer \<open>chan\<close>, the number \<open>waiting\<close> of receivers parked on it, and
  \<open>closed\<close>), whether the context is \<open>cancelled\<close>, and four logs: \<open>sent\<close>, every record
  a send of the worker has passed to the channel; \<open>received\<close>, every record a receiver has
  taken; \<open>naps\<close>, every \<open>time.Sleep\<close>; \<open>offsets\<close>, the cursor of every request sent.
\<close>

datatype wstatus = Running | Stopped | Panicked

record pstate =
  config :: PollingConfig
  pending :: "WebhookEvent option list"
  status :: wstatus
  chan :: "PollingUpdate list"
  waiting :: nat
  closed :: bool
  cancelled :: bool
  sent :: "PollingUpdate list"
  received :: "PollingUpdate list"
  naps :: "nat list"
  offsets :: "int64 list"

definition init :: "PollingConfig \<Rightarrow> pstate" where
  "init cfg =
     \<lparr>config = cfg, pending = [], status = Running, chan = [], waiting = 0, closed = False,
      cancelled = False, sent = [], received = [], naps = [], offsets = []\<rparr>"

text \<open>
  A send that does not wait: a parked receiver takes the record directly, else the buffer
  takes it when it has room, else the send cannot proceed (\<open>None\<close>).
\<close>

definition chansend :: "PollingUpdate \<Rightarrow> pstate \<Rightarrow> pstate option" where
  "chansend u s =
     (if waiting s > 0
      then Some (s\<lparr>waiting := waiting s - 1, received := received s @ [u], sent := sent s @ [u]\<rparr>)
      else if length (chan s) < BufferSize (config s)
      then Some (s\<lparr>chan := chan s @ [u], sent := sent s @ [u]\<rparr>)
      else None)"

text \<open>\<open>sendUpdateError\<close>: the \<open>default\<close> branch drops the record.\<close>

definition sendUpdateError :: "error \<Rightarrow> pstate \<Rightarrow> pstate" where
  "sendUpdateError err s =
     (case chansend \<lparr>pu_UpdateID = 0, pu_Event = None, pu_Error = Some err\<rparr> s of
        Some s' \<Rightarrow> s'
      | None \<Rightarrow> s)"

definition nap :: "pstate \<Rightarrow> pstate" where
  "nap s = s\<lparr>naps := naps s @ [RetryDelay (config s)]\<rparr>"

definition StatusOK :: nat where
  "StatusOK = 200"

text \<open>
  What one request of the worker meets: \<open>http.NewRequestWithContext\<close> fails, or the
  request is sent and \<open>httpClient.Do\<close> gives a result.
\<close>

datatype fetch = NewRequestFailed string | Do http_result

text \<open>
  The body of the outer loop from the request up to the inner loop. \<open>unmarshal\<close> is the
  decoder of the error document, \<open>dec\<close> the decoder of the response envelope
  \<open>{ok, result}\<close>; a \<open>null\<close> in \<open>result\<close> is a nil pointer, \<open>None\<close>.
\<close>

definition iteration ::
  "(string \<Rightarrow> (int \<times> string) option) \<Rightarrow> (string \<Rightarrow> string + bool \<times> WebhookEvent option list)
     \<Rightarrow> fetch \<Rightarrow> pstate \<Rightarrow> pstate" where
  "iteration unmarshal dec f s =
     (case f of
        NewRequestFailed e \<Rightarrow> nap (sendUpdateError (New e) s)
      | Do res \<Rightarrow>
          let s1 = s\<lparr>offsets := offsets s @ [UpdateOffset (config s)]\<rparr> in
          (case res of
             DoFailed e \<Rightarrow> nap (sendUpdateError (New e) s1)
           | Response code body \<Rightarrow>
               if code \<noteq> StatusOK
               then nap (sendUpdateError (parseAPIError unmarshal code body) s1)
               else
                 (case decode_body dec body of
                    Inl e \<Rightarrow> nap (sendUpdateError (New e) s1)
                  | Inr (ok, res) \<Rightarrow> if \<not> ok then nap s1 else s1\<lparr>pending := res\<rparr>)))"

text \<open>
  The transitions. \<open>Cancel\<close> and \<open>Receive\<close> belong to the environment: the context is
  cancelled; a receiver takes the head of the buffer, or parks when the buffer is empty
  and the channel open. The others are the worker's:
  \<^item> \<open>Fetch f\<close>: at the top of the outer loop the context is not done, and the request
    meets \<open>f\<close>;
  \<^item> \<open>Select_send\<close>: the \<open>select\<close> of the inner loop takes the send, which needs a
    parked receiver or room in the buffer, and the cursor is set;
  \<^item> \<open>Ctx_done\<close>: the context is done at the top of the outer loop or in the \<open>select\<close>
    of the inner loop; the worker returns and the deferred \<open>close\<close> runs;
  \<^item> \<open>Nil_deref\<close>: the send value \<open>update.UpdateID\<close> is evaluated on a nil pointer on
    entry to the \<open>select\<close>; the worker panics and the deferred \<open>close\<close> runs.
  A transition that cannot be taken in a state gives \<open>None\<close>. When the send and the
  cancellation are both possible, \<open>select\<close> may take either.
\<close>

datatype action = Cancel | Receive | Fetch fetch | Select_send | Ctx_done | Nil_deref

definition step ::
  "(string \<Rightarrow> (int \<times> string) option) \<Rightarrow> (string \<Rightarrow> string + bool \<times> WebhookEvent option list)
     \<Rightarrow> action \<Rightarrow> pstate \<Rightarrow> pstate option" where
  "step unmarshal dec a s =
     (case a of
        Cancel \<Rightarrow> Some (s\<lparr>cancelled := True\<rparr>)
      | Receive \<Rightarrow>
          (case chan s of
             u # us \<Rightarrow> Some (s\<lparr>chan := us, received := received s @ [u]\<rparr>)
           | [] \<Rightarrow> if closed s then Some s else Some (s\<lparr>waiting := waiting s + 1\<rparr>))
      | Fetch f \<Rightarrow>
          if status s = Running \<and> pending s = [] \<and> \<not> cancelled s
          then Some (iteration unmarshal dec f s) else None
      | Select_send \<Rightarrow>
          if status s \<noteq> Running then None
          else
            (case pending s of
               Some update # rest \<Rightarrow>
                 (case chansend \<lparr>pu_UpdateID = UpdateID update, pu_Event = Some update,
                                 pu_Error = None\<rparr> s of
                    None \<Rightarrow> None
                  | Some s' \<Rightarrow>
                      Some (s'\<lparr>config := (config s')\<lparr>UpdateOffset := UpdateID update + 1\<rparr>,
                               pending := rest\<rparr>))
             | _ \<Rightarrow> None)
      | Ctx_done \<Rightarrow>
          if status s = Running \<and> cancelled s \<and> (case pending s of None # rest \<Rightarrow> False | _ \<Rightarrow> True)
          then Some (s\<lparr>status := Stopped, closed := True, waiting := 0\<rparr>) else None
      | Nil_deref \<Rightarrow>
          if status s = Running \<and> (case pending s of None # rest \<Rightarrow> True | _ \<Rightarrow> False)
          then Some (s\<lparr>status := Panicked, closed := True, waiting := 0\<rparr>) else None)"

text \<open>A run under a schedule; \<open>None\<close> when the schedule asks for a transition that cannot be taken.\<close>

fun run ::
  "(string \<Rightarrow> (int \<times> string) option) \<Rightarrow> (string \<Rightarrow> string + bool \<times> WebhookEvent option list)
     \<Rightarrow> action list \<Rightarrow> pstate \<Rightarrow> pstate option" where
  "run unmarshal dec [] s = Some s"
| "run unmarshal dec (a # as) s =
     (case step unmarshal dec a s of None \<Rightarrow> None | Some s' \<Rightarrow> run unmarshal dec as s')"

text \<open>The events a schedule's fetches decode, in order, and the events among sent records.\<close>

definition batch_of ::
  "(string \<Rightarrow> string + bool \<times> WebhookEvent option list) \<Rightarrow> action \<Rightarrow> WebhookEvent option list" where
  "batch_of dec a =
     (case a of
        Fetch (Do (Response code body)) \<Rightarrow>
          if code = StatusOK
          then (case decode_body dec body of Inr (True, res) \<Rightarrow> res | _ \<Rightarrow> [])
          else []
      | _ \<Rightarrow> [])"

definition fetched ::
  "(string \<Rightarrow> string + bool \<times> WebhookEvent option list) \<Rightarrow> action list \<Rightarrow> WebhookEvent option list" where
  "fetched dec as = concat (map (batch_of dec) as)"

definition events_of :: "PollingUpdate list \<Rightarrow> WebhookEvent list" where
  "events_of us = List.map_filter pu_Event us"

text \<open>The cursor a worker started at \<open>off\<close> holds after it has sent the events \<open>es\<close>.\<close>

definition cursor_after :: "int64 \<Rightarrow> WebhookEvent list \<Rightarrow> int64" where
  "cursor_after off es = (if es = [] then off else UpdateID (last es) + 1)"

text \<open>
  Update ids that ascend from the cursor \<open>off\<close>: none is below the id before it (the
  first not below \<open>off - 1\<close>), as signed 64-bit numbers, and none is the largest one.
\<close>

definition ascending :: "int64 \<Rightarrow> WebhookEvent list \<Rightarrow> bool" where
  "ascending off es =
     (sorted ((sint off - 1) # map (\<lambda>e. sint (UpdateID e)) es)
      \<and> (\<forall>e \<in> set es. sint (UpdateID e) \<noteq> 2 ^ 63 - 1))"


text \<open>
  The channel as the proofs see it: receivers park only on an empty buffer, and the
  records leave in the order they entered, so the receivers' log followed by the buffer
  is the log of the sends.
\<close>

definition chan_inv :: "pstate \<Rightarrow> bool" where
  "chan_inv s = ((waiting s > 0 \<longrightarrow> chan s = []) \<and> sent s = received s @ chan s)"

text \<open>
  What every run from the start maintains: the events sent so far followed by the pending
  ones are the events fetched so far, and the cursor is the one the sent events give.
\<close>

definition worker_inv ::
  "(string \<Rightarrow> string + bool \<times> WebhookEvent option list) \<Rightarrow> PollingConfig \<Rightarrow> action list
     \<Rightarrow> pstate \<Rightarrow> bool" where
  "worker_inv d cfg as s =
     (map Some (events_of (sent s)) @ pending s = fetched d as
      \<and> UpdateOffset (config s) = cursor_after (UpdateOffset cfg) (events_of (sent s))
      \<and> chan_inv s)"

section \<open>The retry loop, one iteration at a time\<close>

lemma retry_loop_terminal:
  assumes "i < maxRetries" "\<not> ctx i" "fn w = (Some err, w')"
    "errors_Is err ErrInvalidChatID \<or> errors_Is err ErrUnauthorized"
  shows "retry_loop ctx fn i lastErr calls w = (Some err, calls @ [elapsed w], w')"
  using assms by (subst retry_loop.simps) auto

lemma retry_loop_retry:
  assumes "\<not> ctx i" "fn w = (Some err, w')" "retryable err" "i < maxRetries"
  shows "retry_loop ctx fn i lastErr calls w =
     retry_loop ctx fn (Suc i) (Some err) (calls @ [elapsed w])
       (if i < maxRetries - 1 then sleep retryDelay w' else w')"
  using assms by (subst retry_loop.simps) (auto simp: retryable_def)

lemma retry_loop_success:
  assumes "i < maxRetries" "\<not> ctx i" "fn w = (None, w')"
  shows "retry_loop ctx fn i lastErr calls w = (None, calls @ [elapsed w], w')"
  using assms by (subst retry_loop.simps) auto

lemma retry_loop_cancelled:
  assumes "i < maxRetries" "ctx i"
  shows "retry_loop ctx fn i lastErr calls w = (Some ContextCanceled, calls, w)"
  using assms by (subst retry_loop.simps) auto

lemma retry_loop_exhausted:
  assumes "\<not> i < maxRetries"
  shows "retry_loop ctx fn i lastErr calls w = (lastErr, calls, w)"
  using assms by (subst retry_loop.simps) auto

lemma retry_three:
  assumes 1: "fn w = (Some e1, w1)" "retryable e1"
    and 2: "fn (sleep retryDelay w1) = (Some e2, w2)" "retryable e2"
    and 3: "fn (sleep retryDelay w2) = (Some e3, w3)" "retryable e3"
    and c: "\<not> ctx 0" "\<not> ctx (Suc 0)" "\<not> ctx (Suc (Suc 0))"
  shows "retryRequest ctx fn w =
     (Some e3, [elapsed w, elapsed (sleep retryDelay w1), elapsed (sleep retryDelay w2)], w3)"
proof -
  have "retryRequest ctx fn w = retry_loop ctx fn (Suc 0) (Some e1) [elapsed w] (sleep retryDelay w1)"
    unfolding retryRequest_def
    by (subst retry_loop_retry [where ctx = ctx and i = 0 and fn = fn, OF c(1) 1]) (simp_all add: maxRetries_def)
  also have "\<dots> = retry_loop ctx fn (Suc (Suc 0)) (Some e2) [elapsed w, elapsed (sleep retryDelay w1)] (sleep retryDelay w2)"
    by (subst retry_loop_retry [where ctx = ctx and i = "Suc 0" and fn = fn, OF c(2) 2]) (simp_all add: maxRetries_def)
  also have "\<dots> = retry_loop ctx fn (Suc (Suc (Suc 0))) (Some e3) [elapsed w, elapsed (sleep retryDelay w1), elapsed (sleep retryDelay w2)] w3"
    by (subst retry_loop_retry [where ctx = ctx and i = "Suc (Suc 0)" and fn = fn, OF c(3) 3]) (simp_all add: maxRetries_def)
  also have "\<dots> = (Some e3, [elapsed w, elapsed (sleep retryDelay w1), elapsed (sleep retryDelay w2)], w3)"
    by (rule retry_loop_exhausted) (simp add: maxRetries_def)
  finally show ?thesis .
qed

section \<open>Comparing signatures\<close>

lemma of_char_word_eq_iff: "(of_char a :: 8 word) = of_char b \<longleftrightarrow> a = b"
proof
  assume h: "(of_char a :: 8 word) = of_char b"
  have "(of_nat (of_char a) :: 8 word) = of_nat (of_char b)"
    using h by (simp add: of_nat_of_char)
  then have "take_bit 8 (of_char a :: nat) = take_bit 8 (of_char b :: nat)"
    by (simp add: word_of_nat_eq_iff)
  then have "(of_char a :: nat) = of_char b"
    by (simp add: take_bit_eq_mod)
  then show "a = b" by simp
qed simp

lemma xor_word_eq_0_iff: "(x :: 8 word) XOR y = 0 \<longleftrightarrow> x = y"
  by (metis bit.xor_left_self xor.right_neutral)

lemma fold_or_xor:
  "fold (\<lambda>(a, b) v. v OR (of_char a XOR of_char b)) ps (v :: 8 word) = 0
     \<longleftrightarrow> v = 0 \<and> (\<forall>(a, b) \<in> set ps. a = b)"
  by (induction ps arbitrary: v)
     (auto simp: or_eq_0_iff xor_word_eq_0_iff of_char_word_eq_iff)

lemma zip_all_eq: "length x = length y \<Longrightarrow> (\<forall>(a, b) \<in> set (zip x y). a = b) \<longleftrightarrow> x = y"
  by (induction x y rule: list_induct2) auto

lemma hmac_Equal_iff: "hmac_Equal x y \<longleftrightarrow> x = y"
  using zip_all_eq [of x y]
  by (auto simp: hmac_Equal_def ConstantTimeCompare_def fold_or_xor)

section \<open>Steps and runs of the polling worker\<close>

lemma run_append:
  "run u d (as @ bs) s = (case run u d as s of None \<Rightarrow> None | Some s' \<Rightarrow> run u d bs s')"
  by (induction as arbitrary: s) (auto split: option.splits)

lemma events_of_append: "events_of (xs @ ys) = events_of xs @ events_of ys"
  by (simp add: events_of_def List.map_filter_def)

lemma events_of_error: "events_of [\<lparr>pu_UpdateID = i, pu_Event = None, pu_Error = e\<rparr>] = []"
  by (simp add: events_of_def List.map_filter_def)

lemma events_of_event: "events_of [\<lparr>pu_UpdateID = i, pu_Event = Some ev, pu_Error = e\<rparr>] = [ev]"
  by (simp add: events_of_def List.map_filter_def)

lemma chansend_Some:
  assumes "chansend r s = Some t"
  shows "sent t = sent s @ [r] \<and> config t = config s \<and> pending t = pending s
       \<and> status t = status s \<and> cancelled t = cancelled s \<and> naps t = naps s
       \<and> offsets t = offsets s \<and> closed t = closed s"
  using assms by (auto simp: chansend_def split: if_splits)

lemma chansend_None:
  "chansend r s = None \<longleftrightarrow> waiting s = 0 \<and> BufferSize (config s) \<le> length (chan s)"
  by (auto simp: chansend_def)

lemma chansend_chan_inv:
  "chansend r s = Some t \<Longrightarrow> chan_inv s \<Longrightarrow> chan_inv t"
  by (auto simp: chansend_def chan_inv_def split: if_splits)

lemma sendUpdateError_keeps:
  "config (sendUpdateError e s) = config s \<and> pending (sendUpdateError e s) = pending s
   \<and> status (sendUpdateError e s) = status s \<and> cancelled (sendUpdateError e s) = cancelled s
   \<and> naps (sendUpdateError e s) = naps s \<and> offsets (sendUpdateError e s) = offsets s"
  by (auto simp: sendUpdateError_def chansend_def split: option.splits if_splits)

lemma sendUpdateError_sent:
  "\<exists>xs. sent (sendUpdateError e s) = sent s @ xs \<and> events_of xs = []"
proof (cases "chansend \<lparr>pu_UpdateID = 0, pu_Event = None, pu_Error = Some e\<rparr> s")
  case None
  then have "sent (sendUpdateError e s) = sent s @ []" by (simp add: sendUpdateError_def)
  moreover have "events_of [] = []" by (simp add: events_of_def List.map_filter_def)
  ultimately show ?thesis by blast
next
  case (Some t)
  then have "sent (sendUpdateError e s) = sent s @ [\<lparr>pu_UpdateID = 0, pu_Event = None, pu_Error = Some e\<rparr>]"
    using chansend_Some [OF Some] by (simp add: sendUpdateError_def)
  then show ?thesis using events_of_error by blast
qed

lemma sendUpdateError_chan_inv: "chan_inv s \<Longrightarrow> chan_inv (sendUpdateError e s)"
  by (auto simp: sendUpdateError_def chansend_chan_inv split: option.splits)

lemma nap_keeps:
  "config (nap s) = config s \<and> pending (nap s) = pending s \<and> status (nap s) = status s
   \<and> sent (nap s) = sent s \<and> chan (nap s) = chan s \<and> received (nap s) = received s
   \<and> waiting (nap s) = waiting s \<and> cancelled (nap s) = cancelled s"
  by (simp add: nap_def)

lemma iteration_cases:
  "(\<exists>e. iteration u d f s = nap (sendUpdateError e s) \<and> batch_of d (Fetch f) = [])
   \<or> (\<exists>e. iteration u d f s = nap (sendUpdateError e (s\<lparr>offsets := offsets s @ [UpdateOffset (config s)]\<rparr>))
          \<and> batch_of d (Fetch f) = [])
   \<or> (iteration u d f s = nap (s\<lparr>offsets := offsets s @ [UpdateOffset (config s)]\<rparr>)
          \<and> batch_of d (Fetch f) = [])
   \<or> (iteration u d f s = s\<lparr>offsets := offsets s @ [UpdateOffset (config s)], pending := batch_of d (Fetch f)\<rparr>)"
  by (auto simp: iteration_def batch_of_def Let_def
      split: fetch.splits http_result.splits sum.splits bool.splits)

lemma iteration_keeps:
  "config (iteration u d f s) = config s \<and> status (iteration u d f s) = status s
   \<and> cancelled (iteration u d f s) = cancelled s
   \<and> (pending s = [] \<longrightarrow> pending (iteration u d f s) = batch_of d (Fetch f))"
  using iteration_cases [of u d f s]
  by (auto simp: nap_keeps sendUpdateError_keeps)

lemma iteration_sent:
  "\<exists>xs. sent (iteration u d f s) = sent s @ xs \<and> events_of xs = []"
proof -
  let ?s1 = "s\<lparr>offsets := offsets s @ [UpdateOffset (config s)]\<rparr>"
  have e: "events_of [] = []" by (simp add: events_of_def List.map_filter_def)
  consider e1 where "iteration u d f s = nap (sendUpdateError e1 s)"
    | e2 where "iteration u d f s = nap (sendUpdateError e2 ?s1)"
    | "iteration u d f s = nap ?s1"
    | "iteration u d f s = ?s1\<lparr>pending := batch_of d (Fetch f)\<rparr>"
    using iteration_cases [of u d f s] by auto
  then show ?thesis
  proof cases
    case 1
    then show ?thesis using sendUpdateError_sent [of e1 s] by (simp add: nap_keeps)
  next
    case 2
    then show ?thesis using sendUpdateError_sent [of e2 ?s1] by (simp add: nap_keeps)
  next
    case 3
    then show ?thesis using e by (simp add: nap_keeps)
  next
    case 4
    then show ?thesis using e by simp
  qed
qed

lemma iteration_chan_inv: "chan_inv s \<Longrightarrow> chan_inv (iteration u d f s)"
proof -
  assume a: "chan_inv s"
  have n: "\<And>t. chan_inv t \<Longrightarrow> chan_inv (nap t)" by (simp add: chan_inv_def nap_def)
  have o: "chan_inv (s\<lparr>offsets := offsets s @ [UpdateOffset (config s)]\<rparr>)"
    using a by (simp add: chan_inv_def)
  have p: "chan_inv (s\<lparr>offsets := offsets s @ [UpdateOffset (config s)], pending := batch_of d (Fetch f)\<rparr>)"
    using a by (simp add: chan_inv_def)
  show ?thesis
    using iteration_cases [of u d f s] a n o p sendUpdateError_chan_inv
    by (elim disjE exE conjE) simp_all
qed

lemma step_sent:
  assumes "step u d a s = Some t"
  shows "\<exists>xs. sent t = sent s @ xs"
proof (cases a)
  case (Fetch f)
  then show ?thesis using assms iteration_sent [of u d f s]
    by (auto simp: step_def split: if_splits)
next
  case Select_send
  then show ?thesis using assms
    by (auto simp: step_def split: if_splits list.splits option.splits dest!: chansend_Some)
qed (use assms in \<open>auto simp: step_def split: if_splits list.splits\<close>)

lemma run_sent:
  "run u d as s = Some t \<Longrightarrow> \<exists>xs. sent t = sent s @ xs"
proof (induction as arbitrary: s)
  case Nil
  then show ?case by simp
next
  case (Cons a as)
  then obtain s1 where 1: "step u d a s = Some s1" and 2: "run u d as s1 = Some t"
    by (auto split: option.splits)
  from step_sent [OF 1] Cons.IH [OF 2] show ?case by auto
qed

lemma step_chan_inv:
  assumes "step u d a s = Some t" "chan_inv s"
  shows "chan_inv t"
proof (cases a)
  case (Fetch f)
  then show ?thesis using assms iteration_chan_inv [of s u d f]
    by (auto simp: step_def split: if_splits)
next
  case Select_send
  then show ?thesis using assms
    by (auto simp: step_def chan_inv_def chansend_def split: if_splits list.splits option.splits)
qed (use assms in \<open>auto simp: step_def chan_inv_def split: if_splits list.splits\<close>)

lemma worker_inv_init: "worker_inv d cfg [] (init cfg)"
  by (simp add: worker_inv_def init_def fetched_def events_of_def List.map_filter_def
      cursor_after_def chan_inv_def)

lemma fetched_snoc: "fetched d (as @ [a]) = fetched d as @ batch_of d a"
  by (simp add: fetched_def)

lemma worker_inv_step:
  assumes i: "worker_inv d cfg as s" and st: "step u d a s = Some t"
  shows "worker_inv d cfg (as @ [a]) t"
proof -
  have c: "chan_inv t" using step_chan_inv [OF st] i by (simp add: worker_inv_def)
  have f: "map Some (events_of (sent s)) @ pending s = fetched d as"
    and o: "UpdateOffset (config s) = cursor_after (UpdateOffset cfg) (events_of (sent s))"
    using i by (simp_all add: worker_inv_def)
  have "map Some (events_of (sent t)) @ pending t = fetched d as @ batch_of d a
        \<and> UpdateOffset (config t) = cursor_after (UpdateOffset cfg) (events_of (sent t))"
  proof (cases a)
    case Cancel
    then show ?thesis using st f o by (auto simp: step_def batch_of_def)
  next
    case Receive
    then show ?thesis using st f o by (auto simp: step_def batch_of_def split: list.splits if_splits)
  next
    case (Fetch x)
    then have en: "pending s = []" and t: "t = iteration u d x s"
      using st by (auto simp: step_def split: if_splits)
    obtain xs where xs: "sent t = sent s @ xs" "events_of xs = []"
      using iteration_sent [of u d x s] t by auto
    show ?thesis using iteration_keeps [of u d x s] en t xs f o Fetch
      by (simp add: events_of_append)
  next
    case Select_send
    then obtain e rest s' where p: "pending s = Some e # rest"
      and cs: "chansend \<lparr>pu_UpdateID = UpdateID e, pu_Event = Some e, pu_Error = None\<rparr> s = Some s'"
      and t: "t = s'\<lparr>config := (config s')\<lparr>UpdateOffset := UpdateID e + 1\<rparr>, pending := rest\<rparr>"
      using st by (auto simp: step_def split: if_splits list.splits option.splits)
    show ?thesis using chansend_Some [OF cs] p t f Select_send
      by (auto simp: events_of_append events_of_event batch_of_def cursor_after_def)
  next
    case Ctx_done
    then show ?thesis using st f o by (auto simp: step_def batch_of_def split: if_splits)
  next
    case Nil_deref
    then show ?thesis using st f o by (auto simp: step_def batch_of_def split: if_splits)
  qed
  then show ?thesis using c by (simp add: worker_inv_def fetched_snoc)
qed

lemma worker_inv_run:
  "worker_inv d cfg as s \<Longrightarrow> run u d bs s = Some t \<Longrightarrow> worker_inv d cfg (as @ bs) t"
proof (induction bs arbitrary: as s)
  case Nil
  then show ?case by simp
next
  case (Cons b bs)
  then obtain s1 where 1: "step u d b s = Some s1" and 2: "run u d bs s1 = Some t"
    by (auto split: option.splits)
  have "worker_inv d cfg ((as @ [b]) @ bs) t"
    using Cons.IH [OF worker_inv_step [OF Cons.prems(1) 1] 2] .
  then show ?case by simp
qed

section \<open>The cursor as a signed 64-bit number\<close>

lemma sint_succ:
  fixes x :: int64
  assumes "sint x \<noteq> 2 ^ 63 - 1"
  shows "sint (x + 1) = sint x + 1"
proof -
  have b: "- (2 ^ 63) \<le> sint x" "sint x < 2 ^ 63"
    using sint_ge [of x] sint_lt [of x] by simp_all
  have "sint (x + 1) = signed_take_bit 63 (sint x + 1)"
    by (simp add: sint_word_ariths)
  also have "\<dots> = sint x + 1"
    using b assms by (intro signed_take_bit_int_eq_self) simp_all
  finally show ?thesis .
qed

lemma cursor_after_mono:
  assumes "ascending off (es @ xs)"
  shows "sint (cursor_after off es) \<le> sint (cursor_after off (es @ xs))"
proof (cases "xs = []")
  case True
  then show ?thesis by simp
next
  case False
  have nm: "sint (UpdateID (last xs)) \<noteq> 2 ^ 63 - 1"
    using assms False by (auto simp: ascending_def)
  have s: "sorted ((sint off - 1) # map (\<lambda>e. sint (UpdateID e)) (es @ xs))"
    using assms by (simp add: ascending_def)
  have l: "last xs \<in> set xs" using False by simp
  have c2: "sint (cursor_after off (es @ xs)) = sint (UpdateID (last xs)) + 1"
    using False nm by (simp add: cursor_after_def sint_succ)
  show ?thesis
  proof (cases "es = []")
    case True
    have "sint off - 1 \<le> sint (UpdateID (last xs))" using s l by auto
    then show ?thesis using c2 True by (simp add: cursor_after_def)
  next
    case e: False
    have le: "last es \<in> set es" using e by simp
    have nm': "sint (UpdateID (last es)) \<noteq> 2 ^ 63 - 1"
      using assms le by (auto simp: ascending_def)
    have "sorted (map (\<lambda>e. sint (UpdateID e)) es @ map (\<lambda>e. sint (UpdateID e)) xs)"
      using s by simp
    then have "sint (UpdateID (last es)) \<le> sint (UpdateID (last xs))"
      using l le by (auto simp: sorted_append)
    then show ?thesis using c2 e nm' by (simp add: cursor_after_def sint_succ)
  qed
qed

section \<open>The closure of SendMessage, one call at a time\<close>

lemma sendMessage_fn_rate_limited:
  assumes "transport (requests (ext w)) = Response StatusTooManyRequests body"
  shows "sendMessage_fn None transport unmarshal dec w =
           (Some ErrRateLimit,
            w\<lparr>slept := slept w @ [rateLimitDelay], ext := (ext w)\<lparr>requests := requests (ext w) + 1\<rparr>\<rparr>)"
  using assms by (simp add: sendMessage_fn_def sleep_def)

lemma sendMessage_fn_decode_failure:
  assumes "transport (requests (ext w)) = Response code body" "code < 400"
    "decode_body dec body = Inl e"
  shows "sendMessage_fn None transport unmarshal dec w =
           (Some (Wrap ''error decoding response'' (New e)),
            w\<lparr>ext := (ext w)\<lparr>requests := requests (ext w) + 1\<rparr>\<rparr>)"
  using assms by (simp add: sendMessage_fn_def StatusTooManyRequests_def)

lemma sendMessage_fn_success:
  assumes "transport (requests (ext w)) = Response code body" "code < 400"
    "decode_body dec body = Inr r"
  shows "sendMessage_fn None transport unmarshal dec w =
           (None, w\<lparr>ext := (ext w)\<lparr>requests := requests (ext w) + 1, result := Some r\<rparr>\<rparr>)"
  using assms by (simp add: sendMessage_fn_def StatusTooManyRequests_def)

section \<open>Claims about the retry policy\<close>

text \<open>
  Claim C6. An operation whose error has \<open>ErrUnauthorized\<close> or \<open>ErrInvalidChatID\<close> in its
  chain ends the loop at once: with a context that is not done at the first poll,
  \<open>retryRequest\<close> invokes the operation once (one entry in the log of invocations), sleeps
  not at all (the world is the one the operation left) and returns that error. Only that
  one invocation is constrained, so this holds whatever the operation would do later. The
  same holds of the loop entered at any iteration within the budget: one more invocation,
  and the error is returned, whatever is left of the attempts.
\<close>

theorem retryRequest_terminal:
  assumes "fn w = (Some err, w')"
    and "errors_Is err ErrUnauthorized \<or> errors_Is err ErrInvalidChatID"
  shows "(\<not> ctx 0 \<longrightarrow> retryRequest ctx fn w = (Some err, [elapsed w], w'))
       \<and> (\<forall>i lastErr calls. i < maxRetries \<and> \<not> ctx i \<longrightarrow>
             retry_loop ctx fn i lastErr calls w = (Some err, calls @ [elapsed w], w'))"
proof -
  have l: "\<And>i lastErr calls. i < maxRetries \<Longrightarrow> \<not> ctx i \<Longrightarrow>
             retry_loop ctx fn i lastErr calls w = (Some err, calls @ [elapsed w], w')"
    using assms by (intro retry_loop_terminal) auto
  have "\<not> ctx 0 \<Longrightarrow> retryRequest ctx fn w = (Some err, [elapsed w], w')"
    using l [of 0 None "[]"] by (simp add: retryRequest_def maxRetries_def)
  then show ?thesis using l by blast
qed

theorem retryRequest_terminal_witness:
  "errors_Is (Wrap ''send'' ErrUnauthorized) ErrUnauthorized
   \<and> retryRequest (\<lambda>i. False) (\<lambda>w. (Some (Wrap ''send'' ErrUnauthorized), w\<lparr>ext := Suc (ext w)\<rparr>))
        \<lparr>slept = [], ext = 0\<rparr>
      = (Some (Wrap ''send'' ErrUnauthorized), [0], \<lparr>slept = [], ext = 1\<rparr>)"
  using retryRequest_terminal [of "\<lambda>w. (Some (Wrap ''send'' ErrUnauthorized), w\<lparr>ext := Suc (ext w)\<rparr>)"
      "\<lparr>slept = [], ext = 0\<rparr>" "Wrap ''send'' ErrUnauthorized" "\<lparr>slept = [], ext = 1\<rparr>" "\<lambda>i. False"]
  by (simp add: elapsed_def)

text \<open>
  Claim C7. An operation that fails with a retryable error at every invocation, under a
  context that is never done, is invoked \<open>maxRetries\<close> times, with the fixed delay
  between invocations and none after the last; what \<open>retryRequest\<close> returns is the error
  of the last invocation alone.
\<close>

theorem retryRequest_exhaustion:
  assumes fails: "\<forall>v. \<exists>err v'. fn v = (Some err, v') \<and> retryable err"
    and live: "\<forall>i < maxRetries. \<not> ctx i"
  shows "\<exists>e1 w1 e2 w2 e3 w3 calls.
           fn w = (Some e1, w1) \<and> fn (sleep retryDelay w1) = (Some e2, w2)
         \<and> fn (sleep retryDelay w2) = (Some e3, w3)
         \<and> retryRequest ctx fn w = (Some e3, calls, w3)
         \<and> calls = [elapsed w, elapsed (sleep retryDelay w1), elapsed (sleep retryDelay w2)]
         \<and> length calls = maxRetries"
proof -
  obtain e1 w1 where 1: "fn w = (Some e1, w1)" "retryable e1" using fails by blast
  obtain e2 w2 where 2: "fn (sleep retryDelay w1) = (Some e2, w2)" "retryable e2" using fails by blast
  obtain e3 w3 where 3: "fn (sleep retryDelay w2) = (Some e3, w3)" "retryable e3" using fails by blast
  have c: "\<not> ctx 0" "\<not> ctx (Suc 0)" "\<not> ctx (Suc (Suc 0))" using live by (simp_all add: maxRetries_def)
  show ?thesis using retry_three [OF 1 2 3 c] 1 2 3 by (simp add: maxRetries_def)
qed

theorem retryRequest_exhaustion_witness:
  "retryRequest (\<lambda>i. False) (\<lambda>w. (Some (New (''API error 50'' @ itoa_nat (ext w))), w\<lparr>ext := Suc (ext w)\<rparr>))
        \<lparr>slept = [], ext = 0\<rparr>
      = (Some (New ''API error 502''), [0, 1000, 2000], \<lparr>slept = [1000, 1000], ext = 3\<rparr>)"
  using retryRequest_exhaustion [of "\<lambda>w. (Some (New (''API error 50'' @ itoa_nat (ext w))), w\<lparr>ext := Suc (ext w)\<rparr>)"
      "\<lambda>i. False" "\<lparr>slept = [], ext = 0\<rparr>"]
  by (simp add: retryable_def sleep_def elapsed_def retryDelay_def digit_def itoa_nat.simps)

text \<open>
  Claim C5, as amended. A response that cannot be decoded is not exempt from retrying:
  the error \<open>error decoding response\<close> of the closure of \<open>SendMessage\<close> has neither
  sentinel in its chain. When every response has a status below 400 and a body that does
  not decode, and the context is never done, \<open>retryRequest\<close> invokes the closure
  \<open>maxRetries\<close> times, sends as many requests, sleeps the fixed delay between the
  attempts (twice, and not after the last) and nothing else, and returns the decode error
  of the last response.
\<close>

theorem sendMessage_decode_failure_retried:
  assumes fails: "\<forall>n. \<exists>code body e. transport n = Response code body \<and> code < 400
                      \<and> decode_body dec body = Inl e"
    and live: "\<forall>i < maxRetries. \<not> ctx i"
  shows "\<exists>code body e calls w'.
           transport (requests (ext w) + 2) = Response code body \<and> decode_body dec body = Inl e
         \<and> retryRequest ctx (sendMessage_fn None transport unmarshal dec) w
             = (Some (Wrap ''error decoding response'' (New e)), calls, w')
         \<and> length calls = maxRetries
         \<and> requests (ext w') = requests (ext w) + maxRetries
         \<and> calls = [elapsed w, elapsed w + retryDelay, elapsed w + 2 * retryDelay]
         \<and> slept w' = slept w @ [retryDelay, retryDelay]"
proof -
  let ?fn = "sendMessage_fn None transport unmarshal dec"
  let ?n = "requests (ext w)"
  obtain c1 b1 e1 where 1: "transport ?n = Response c1 b1" "c1 < 400" "decode_body dec b1 = Inl e1"
    using fails by blast
  obtain c2 b2 e2 where 2: "transport (?n + 1) = Response c2 b2" "c2 < 400" "decode_body dec b2 = Inl e2"
    using fails by blast
  obtain c3 b3 e3 where 3: "transport (?n + 2) = Response c3 b3" "c3 < 400" "decode_body dec b3 = Inl e3"
    using fails by blast
  let ?w1 = "w\<lparr>ext := (ext w)\<lparr>requests := ?n + 1\<rparr>\<rparr>"
  let ?w2 = "(sleep retryDelay ?w1)\<lparr>ext := (ext (sleep retryDelay ?w1))\<lparr>requests := ?n + 2\<rparr>\<rparr>"
  let ?w3 = "(sleep retryDelay ?w2)\<lparr>ext := (ext (sleep retryDelay ?w2))\<lparr>requests := ?n + 3\<rparr>\<rparr>"
  let ?calls = "[elapsed w, elapsed (sleep retryDelay ?w1), elapsed (sleep retryDelay ?w2)]"
  have f1: "?fn w = (Some (Wrap ''error decoding response'' (New e1)), ?w1)"
    using sendMessage_fn_decode_failure [of transport w c1 b1 dec e1 unmarshal] 1 by simp
  have f2: "?fn (sleep retryDelay ?w1) = (Some (Wrap ''error decoding response'' (New e2)), ?w2)"
    using sendMessage_fn_decode_failure [of transport "sleep retryDelay ?w1" c2 b2 dec e2 unmarshal] 2
    by (simp add: sleep_def)
  have f3: "?fn (sleep retryDelay ?w2) = (Some (Wrap ''error decoding response'' (New e3)), ?w3)"
    using sendMessage_fn_decode_failure [of transport "sleep retryDelay ?w2" c3 b3 dec e3 unmarshal] 3
    by (simp add: sleep_def)
  have r: "\<And>e. retryable (Wrap ''error decoding response'' (New e))"
    by (simp add: retryable_def)
  have c: "\<not> ctx 0" "\<not> ctx (Suc 0)" "\<not> ctx (Suc (Suc 0))" using live by (simp_all add: maxRetries_def)
  have res: "retryRequest ctx ?fn w =
          (Some (Wrap ''error decoding response'' (New e3)), ?calls, ?w3)"
    by (rule retry_three [OF f1 r f2 r f3 r c])
  have len: "length ?calls = maxRetries" by (simp add: maxRetries_def)
  have req: "requests (ext ?w3) = ?n + maxRetries" by (simp add: maxRetries_def sleep_def)
  have times: "?calls = [elapsed w, elapsed w + retryDelay, elapsed w + 2 * retryDelay]"
    by (simp add: elapsed_def sleep_def)
  have naps: "slept ?w3 = slept w @ [retryDelay, retryDelay]"
    by (simp add: sleep_def)
  show ?thesis using 3(1) 3(3) res len req times naps by blast
qed

theorem sendMessage_decode_failure_retried_witness:
  "\<exists>e w'.
     retryRequest (\<lambda>i. False)
       (sendMessage_fn None (\<lambda>n. Response 200 (Inr ''<html>'')) (\<lambda>b. None)
          (\<lambda>b. Inl ''invalid character''))
       \<lparr>slept = [], ext = \<lparr>requests = 0, result = None\<rparr>\<rparr>
     = (Some (Wrap ''error decoding response'' (New e)), [0, 1000, 2000], w')
   \<and> requests (ext w') = maxRetries \<and> slept w' = [1000, 1000]"
  using sendMessage_decode_failure_retried [of "\<lambda>n. Response 200 (Inr ''<html>'')"
      "\<lambda>b. Inl ''invalid character''" "\<lambda>i. False"
      "\<lparr>slept = [], ext = \<lparr>requests = 0, result = None\<rparr>\<rparr>" "\<lambda>b. None"]
  by (simp add: decode_body_def elapsed_def retryDelay_def) blast

text \<open>
  The claim as stated (one invocation, no retry) fails: with a server that always answers
  200 with a body that does not decode, the closure is invoked three times, one second
  apart, and three requests are sent.
\<close>

theorem decode_failure_retried_counterexample:
  "retryRequest (\<lambda>i. False)
     (sendMessage_fn None (\<lambda>n. Response 200 (Inr ''<html>'')) (\<lambda>b. None)
        (\<lambda>b. Inl ''invalid character''))
     \<lparr>slept = [], ext = \<lparr>requests = 0, result = None\<rparr>\<rparr>
   = (Some (Wrap ''error decoding response'' (New ''invalid character'')), [0, 1000, 2000],
      \<lparr>slept = [1000, 1000], ext = \<lparr>requests = 3, result = None\<rparr>\<rparr>)"
proof -
  let ?fn = "sendMessage_fn None (\<lambda>n. Response 200 (Inr ''<html>'')) (\<lambda>b. None)
        (\<lambda>b. Inl ''invalid character'')"
  let ?e = "Wrap ''error decoding response'' (New ''invalid character'')"
  have f: "\<And>w. ?fn w = (Some ?e, w\<lparr>ext := (ext w)\<lparr>requests := requests (ext w) + 1\<rparr>\<rparr>)"
    by (simp add: sendMessage_fn_def StatusTooManyRequests_def decode_body_def)
  have r: "retryable ?e" by (simp add: retryable_def)
  show ?thesis
    using retry_three [of ?fn _ ?e _ ?e _ ?e _ "\<lambda>i. False", OF f r f r f r]
    by (simp add: sleep_def elapsed_def retryDelay_def)
qed

text \<open>
  Claim C4, as amended. The delay for a rate-limited response lives in the closure of
  \<open>SendMessage\<close>: answered 429, it sleeps \<open>rateLimitDelay\<close> itself and returns
  \<open>ErrRateLimit\<close>. \<open>retryRequest\<close> does not end on that error and, an attempt being
  left, sleeps the fixed \<open>retryDelay\<close> as after any other error, so the next attempt
  starts \<open>rateLimitDelay + retryDelay\<close> later. Rate-limited on attempts 1 and 2 and
  answered with a decodable response below 400 on attempt 3, under a context that is
  never done, the call succeeds after \<open>2 * (rateLimitDelay + retryDelay)\<close>, which is at
  least two rate-limit intervals.
\<close>

theorem sendMessage_rate_limited:
  assumes t1: "transport (requests (ext w)) = Response StatusTooManyRequests b1"
    and t2: "transport (requests (ext w) + 1) = Response StatusTooManyRequests b2"
    and t3: "transport (requests (ext w) + 2) = Response code b3"
    and ok: "code < 400" "decode_body dec b3 = Inr r"
    and live: "\<forall>i < maxRetries. \<not> ctx i"
  shows "retryRequest ctx (sendMessage_fn None transport unmarshal dec) w =
           (None,
            [elapsed w, elapsed w + (rateLimitDelay + retryDelay),
             elapsed w + 2 * (rateLimitDelay + retryDelay)],
            w\<lparr>slept := slept w @ [rateLimitDelay, retryDelay, rateLimitDelay, retryDelay],
              ext := (ext w)\<lparr>requests := requests (ext w) + 3, result := Some r\<rparr>\<rparr>)"
proof -
  let ?fn = "sendMessage_fn None transport unmarshal dec"
  let ?n = "requests (ext w)"
  let ?w1 = "w\<lparr>slept := slept w @ [rateLimitDelay], ext := (ext w)\<lparr>requests := ?n + 1\<rparr>\<rparr>"
  let ?v1 = "sleep retryDelay ?w1"
  let ?w2 = "?v1\<lparr>slept := slept ?v1 @ [rateLimitDelay], ext := (ext ?v1)\<lparr>requests := ?n + 2\<rparr>\<rparr>"
  let ?v2 = "sleep retryDelay ?w2"
  let ?w3 = "?v2\<lparr>ext := (ext ?v2)\<lparr>requests := ?n + 3, result := Some r\<rparr>\<rparr>"
  have c: "\<not> ctx 0" "\<not> ctx (Suc 0)" "\<not> ctx (Suc (Suc 0))" using live by (simp_all add: maxRetries_def)
  have rl: "retryable ErrRateLimit" by (simp add: retryable_def)
  have f1: "?fn w = (Some ErrRateLimit, ?w1)"
    using sendMessage_fn_rate_limited [of transport w b1 unmarshal dec] t1 by simp
  have f2: "?fn ?v1 = (Some ErrRateLimit, ?w2)"
    using sendMessage_fn_rate_limited [of transport ?v1 b2 unmarshal dec] t2 by (simp add: sleep_def)
  have f3: "?fn ?v2 = (None, ?w3)"
    using sendMessage_fn_success [of transport ?v2 code b3 dec r unmarshal] t3 ok by (simp add: sleep_def)
  have "retryRequest ctx ?fn w = retry_loop ctx ?fn (Suc 0) (Some ErrRateLimit) [elapsed w] ?v1"
    unfolding retryRequest_def
    by (subst retry_loop_retry [where ctx = ctx and i = 0 and fn = ?fn, OF c(1) f1 rl])
       (simp_all add: maxRetries_def)
  also have "\<dots> = retry_loop ctx ?fn (Suc (Suc 0)) (Some ErrRateLimit) [elapsed w, elapsed ?v1] ?v2"
    by (subst retry_loop_retry [where ctx = ctx and i = "Suc 0" and fn = ?fn, OF c(2) f2 rl])
       (simp_all add: maxRetries_def)
  also have "\<dots> = (None, [elapsed w, elapsed ?v1, elapsed ?v2], ?w3)"
    by (subst retry_loop_success [where ctx = ctx and i = "Suc (Suc 0)" and fn = ?fn, OF _ c(3) f3])
       (simp_all add: maxRetries_def)
  finally show ?thesis by (simp add: sleep_def elapsed_def)
qed

theorem sendMessage_rate_limited_witness:
  "retryRequest (\<lambda>i. False)
     (sendMessage_fn None
        (\<lambda>n. if n < 2 then Response 429 (Inr []) else Response 200 (Inr ''{}''))
        (\<lambda>b. None) (\<lambda>b. Inr \<lparr>ID = ''m1'', Timestamp = [], Status = []\<rparr>))
     \<lparr>slept = [], ext = \<lparr>requests = 0, result = None\<rparr>\<rparr>
   = (None, [0, 6000, 12000],
      \<lparr>slept = [5000, 1000, 5000, 1000],
       ext = \<lparr>requests = 3, result = Some \<lparr>ID = ''m1'', Timestamp = [], Status = []\<rparr>\<rparr>\<rparr>)
   \<and> 2 * rateLimitDelay \<le> (12000 :: nat)"
  using sendMessage_rate_limited [of
      "\<lambda>n. if n < 2 then Response 429 (Inr []) else Response 200 (Inr ''{}'')"
      "\<lparr>slept = [], ext = \<lparr>requests = 0, result = None\<rparr>\<rparr>" "Inr []" "Inr []" 200
      "Inr ''{}''" "\<lambda>b. Inr \<lparr>ID = ''m1'', Timestamp = [], Status = []\<rparr>"
      "\<lparr>ID = ''m1'', Timestamp = [], Status = []\<rparr>" "\<lambda>i. False" "\<lambda>b. None"]
  by (simp add: StatusTooManyRequests_def decode_body_def elapsed_def rateLimitDelay_def retryDelay_def)

text \<open>
  The claim as stated (the rate-limit delay instead of the fixed one) fails: with a server
  that answers 429 twice and then 200, the sleeps are 5 s, 1 s, 5 s, 1 s; the fixed delay
  follows each rate-limited attempt, and the second attempt starts 6 s after the first.
\<close>

theorem rate_limit_delay_counterexample:
  "slept (snd (snd (retryRequest (\<lambda>i. False)
     (sendMessage_fn None
        (\<lambda>n. if n < 2 then Response 429 (Inr []) else Response 200 (Inr ''{}''))
        (\<lambda>b. None) (\<lambda>b. Inr \<lparr>ID = ''m1'', Timestamp = [], Status = []\<rparr>))
     \<lparr>slept = [], ext = \<lparr>requests = 0, result = None\<rparr>\<rparr>)))
   = [rateLimitDelay, retryDelay, rateLimitDelay, retryDelay]
   \<and> fst (snd (retryRequest (\<lambda>i. False)
     (sendMessage_fn None
        (\<lambda>n. if n < 2 then Response 429 (Inr []) else Response 200 (Inr ''{}''))
        (\<lambda>b. None) (\<lambda>b. Inr \<lparr>ID = ''m1'', Timestamp = [], Status = []\<rparr>))
     \<lparr>slept = [], ext = \<lparr>requests = 0, result = None\<rparr>\<rparr>))
   = [0, 6000, 12000]
   \<and> (6000 :: nat) \<noteq> rateLimitDelay"
proof -
  let ?tr = "\<lambda>n::nat. if n < 2 then Response 429 (Inr []) else Response 200 (Inr ''{}'')"
  let ?dec = "\<lambda>b::string. Inr \<lparr>ID = ''m1'', Timestamp = [], Status = []\<rparr> :: string + MessageResponse"
  let ?fn = "sendMessage_fn None ?tr (\<lambda>b. None) ?dec"
  let ?w0 = "\<lparr>slept = [], ext = \<lparr>requests = 0, result = None\<rparr>\<rparr>"
  let ?w1 = "\<lparr>slept = [5000], ext = \<lparr>requests = 1, result = None\<rparr>\<rparr>"
  let ?v1 = "\<lparr>slept = [5000, 1000], ext = \<lparr>requests = 1, result = None\<rparr>\<rparr>"
  let ?w2 = "\<lparr>slept = [5000, 1000, 5000], ext = \<lparr>requests = 2, result = None\<rparr>\<rparr>"
  let ?v2 = "\<lparr>slept = [5000, 1000, 5000, 1000], ext = \<lparr>requests = 2, result = None\<rparr>\<rparr>"
  let ?w3 = "\<lparr>slept = [5000, 1000, 5000, 1000],
              ext = \<lparr>requests = 3, result = Some \<lparr>ID = ''m1'', Timestamp = [], Status = []\<rparr>\<rparr>\<rparr>"
  have rl: "retryable ErrRateLimit" by (simp add: retryable_def)
  have f1: "?fn ?w0 = (Some ErrRateLimit, ?w1)"
    by (simp add: sendMessage_fn_def StatusTooManyRequests_def sleep_def rateLimitDelay_def)
  have f2: "?fn ?v1 = (Some ErrRateLimit, ?w2)"
    by (simp add: sendMessage_fn_def StatusTooManyRequests_def sleep_def rateLimitDelay_def)
  have f3: "?fn ?v2 = (None, ?w3)"
    by (simp add: sendMessage_fn_def StatusTooManyRequests_def decode_body_def)
  have "retryRequest (\<lambda>i. False) ?fn ?w0 = retry_loop (\<lambda>i. False) ?fn (Suc 0) (Some ErrRateLimit) [0] ?v1"
    unfolding retryRequest_def
    by (subst retry_loop_retry [where ctx = "\<lambda>i. False" and i = 0 and fn = ?fn, OF _ f1 rl])
       (simp_all add: maxRetries_def sleep_def retryDelay_def elapsed_def)
  also have "\<dots> = retry_loop (\<lambda>i. False) ?fn (Suc (Suc 0)) (Some ErrRateLimit) [0, 6000] ?v2"
    by (subst retry_loop_retry [where ctx = "\<lambda>i. False" and i = "Suc 0" and fn = ?fn, OF _ f2 rl])
       (simp_all add: maxRetries_def sleep_def retryDelay_def elapsed_def)
  also have "\<dots> = (None, [0, 6000, 12000], ?w3)"
    by (subst retry_loop_success [where ctx = "\<lambda>i. False" and i = "Suc (Suc 0)" and fn = ?fn, OF _ _ f3])
       (simp_all add: maxRetries_def elapsed_def)
  finally show ?thesis by (simp add: rateLimitDelay_def retryDelay_def)
qed

section \<open>Claims about the webhook ingress\<close>

text \<open>
  Claim C2. With a non-empty secret, \<open>VerifySignature\<close> is true exactly of the signature
  that is the hex-encoded keyed hash of the body under the secret: it accepts that digest
  and rejects every other string (such as the digest of another body, whenever that
  differs). The keyed hash is any function of key and message.
\<close>

theorem VerifySignature_correct:
  assumes "secret \<noteq> []"
  shows "VerifySignature mac secret signature body
           \<longleftrightarrow> signature = hex_EncodeToString (mac secret body)"
  using assms by (simp add: VerifySignature_def hmac_Equal_iff)

theorem VerifySignature_correct_witness:
  "''s3cr3t'' \<noteq> []
   \<and> VerifySignature (\<lambda>key msg. key @ msg) ''s3cr3t'' ''7333637233747b7d'' ''{}''
   \<and> hex_EncodeToString ((\<lambda>key msg. key @ msg) ''s3cr3t'' ''{}'') = ''7333637233747b7d''
   \<and> \<not> VerifySignature (\<lambda>key msg. key @ msg) ''s3cr3t''
         (hex_EncodeToString ((\<lambda>key msg. key @ msg) ''s3cr3t'' ''{'')) ''{}''"
  using VerifySignature_correct [of "''s3cr3t''" "\<lambda>key msg. key @ msg" "''7333637233747b7d''" "''{}''"]
    VerifySignature_correct [of "''s3cr3t''" "\<lambda>key msg. key @ msg"
      "hex_EncodeToString ((\<lambda>key msg. key @ msg) ''s3cr3t'' ''{'')" "''{}''"]
  by (simp add: hex_EncodeToString_def hextable_def)

text \<open>
  Claim C9. \<open>ParseRequest\<close> returns an event exactly when the method is POST, the
  \<open>X-Signature\<close> header is not empty, the body (which must have been read) verifies
  against it, decodes, and the decoded event has a non-empty type. A request with no
  signature and a body decoding to an event with an empty type are rejected, and a
  signature that does not verify gives \<open>ErrSignatureInvalid\<close> whatever the JSON decoder
  is: the decoder's result is not looked at.
\<close>

theorem ParseRequest_accepts_iff:
  "(ParseRequest mac unmarshal secret r = Inr event \<longleftrightarrow>
      Method r = ''POST''
    \<and> Header_Get (Header r) ''X-Signature'' \<noteq> []
    \<and> (\<exists>body. Body r = Inr body
         \<and> VerifySignature mac secret (Header_Get (Header r) ''X-Signature'') body
         \<and> unmarshal body = Inr event \<and> Type event \<noteq> []))
   \<and> (Header_Get (Header r) ''X-Signature'' = [] \<longrightarrow>
        (\<exists>e. ParseRequest mac unmarshal secret r = Inl e))
   \<and> (\<forall>body ev. Body r = Inr body \<and> unmarshal body = Inr ev \<and> Type ev = [] \<longrightarrow>
        (\<exists>e. ParseRequest mac unmarshal secret r = Inl e))
   \<and> (\<forall>body. Method r = ''POST'' \<and> Header_Get (Header r) ''X-Signature'' \<noteq> []
          \<and> Body r = Inr body
          \<and> \<not> VerifySignature mac secret (Header_Get (Header r) ''X-Signature'') body \<longrightarrow>
        (\<forall>unmarshal'. ParseRequest mac unmarshal' secret r = Inl ErrSignatureInvalid))"
proof (intro conjI allI impI)
  show "ParseRequest mac unmarshal secret r = Inr event \<longleftrightarrow>
      Method r = ''POST''
    \<and> Header_Get (Header r) ''X-Signature'' \<noteq> []
    \<and> (\<exists>body. Body r = Inr body
         \<and> VerifySignature mac secret (Header_Get (Header r) ''X-Signature'') body
         \<and> unmarshal body = Inr event \<and> Type event \<noteq> [])"
    by (auto simp: ParseRequest_def Let_def split: sum.splits)
next
  assume "Header_Get (Header r) ''X-Signature'' = []"
  then show "\<exists>e. ParseRequest mac unmarshal secret r = Inl e"
    by (simp add: ParseRequest_def)
next
  fix body ev
  assume "Body r = Inr body \<and> unmarshal body = Inr ev \<and> Type ev = []"
  then show "\<exists>e. ParseRequest mac unmarshal secret r = Inl e"
    by (simp add: ParseRequest_def Let_def)
next
  fix body unmarshal'
  assume "Method r = ''POST'' \<and> Header_Get (Header r) ''X-Signature'' \<noteq> []
          \<and> Body r = Inr body
          \<and> \<not> VerifySignature mac secret (Header_Get (Header r) ''X-Signature'') body"
  then show "ParseRequest mac unmarshal' secret r = Inl ErrSignatureInvalid"
    by (simp add: ParseRequest_def Let_def)
qed

theorem ParseRequest_accepts_iff_witness:
  "ParseRequest (\<lambda>key msg. key @ msg)
     (\<lambda>b. Inr \<lparr>UpdateID = 7, EventID = ''e7'', Type = ''message'', ChatID = ''c1'', Data = []\<rparr>)
     ''k'' \<lparr>Method = ''POST'', Header = [''X-Signature'' \<mapsto> [''6b7b7d'']], Body = Inr ''{}''\<rparr>
     = Inr \<lparr>UpdateID = 7, EventID = ''e7'', Type = ''message'', ChatID = ''c1'', Data = []\<rparr>
   \<and> (\<exists>e. ParseRequest (\<lambda>key msg. key @ msg)
         (\<lambda>b. Inr \<lparr>UpdateID = 7, EventID = ''e7'', Type = ''message'', ChatID = ''c1'', Data = []\<rparr>)
         ''k'' \<lparr>Method = ''POST'', Header = Map.empty, Body = Inr ''{}''\<rparr> = Inl e)
   \<and> (\<exists>e. ParseRequest (\<lambda>key msg. key @ msg)
         (\<lambda>b. Inr \<lparr>UpdateID = 7, EventID = ''e7'', Type = [], ChatID = ''c1'', Data = []\<rparr>)
         ''k'' \<lparr>Method = ''POST'', Header = [''X-Signature'' \<mapsto> [''6b7b7d'']], Body = Inr ''{}''\<rparr> = Inl e)
   \<and> ParseRequest (\<lambda>key msg. key @ msg)
         (\<lambda>b. Inr \<lparr>UpdateID = 7, EventID = ''e7'', Type = ''message'', ChatID = ''c1'', Data = []\<rparr>)
         ''k'' \<lparr>Method = ''POST'', Header = [''X-Signature'' \<mapsto> [''00'']], Body = Inr ''{}''\<rparr>
     = Inl ErrSignatureInvalid"
proof -
  let ?mac = "\<lambda>key msg :: string. key @ msg"
  let ?ev = "\<lparr>UpdateID = 7, EventID = ''e7'', Type = ''message'', ChatID = ''c1'', Data = []\<rparr>"
  let ?evE = "\<lparr>UpdateID = 7, EventID = ''e7'', Type = [], ChatID = ''c1'', Data = []\<rparr>"
  let ?u = "\<lambda>b :: string. Inr ?ev :: string + WebhookEvent"
  let ?uE = "\<lambda>b :: string. Inr ?evE :: string + WebhookEvent"
  let ?r1 = "\<lparr>Method = ''POST'', Header = [''X-Signature'' \<mapsto> [''6b7b7d'']], Body = Inr ''{}''\<rparr>"
  let ?r2 = "\<lparr>Method = ''POST'', Header = Map.empty, Body = Inr ''{}''\<rparr>"
  let ?r3 = "\<lparr>Method = ''POST'', Header = [''X-Signature'' \<mapsto> [''00'']], Body = Inr ''{}''\<rparr>"
  have v: "VerifySignature ?mac ''k'' ''6b7b7d'' ''{}''" "\<not> VerifySignature ?mac ''k'' ''00'' ''{}''"
    by (simp_all add: VerifySignature_def hmac_Equal_iff hex_EncodeToString_def hextable_def)
  have 1: "ParseRequest ?mac ?u ''k'' ?r1 = Inr ?ev"
    using ParseRequest_accepts_iff [of ?mac ?u "''k''" ?r1 ?ev] v by (simp add: Header_Get_def)
  have 2: "\<exists>e. ParseRequest ?mac ?u ''k'' ?r2 = Inl e"
    using ParseRequest_accepts_iff [of ?mac ?u "''k''" ?r2 ?ev] by (simp add: Header_Get_def)
  have 3: "\<exists>e. ParseRequest ?mac ?uE ''k'' ?r1 = Inl e"
    using ParseRequest_accepts_iff [of ?mac ?uE "''k''" ?r1 ?ev] by simp
  have 4: "ParseRequest ?mac ?u ''k'' ?r3 = Inl ErrSignatureInvalid"
    using ParseRequest_accepts_iff [of ?mac ?u "''k''" ?r3 ?ev] v by (simp add: Header_Get_def)
  from 1 2 3 4 show ?thesis by blast
qed



section \<open>Single transitions of the polling worker\<close>

lemma sendUpdateError_eq:
  "sendUpdateError err s =
     (if waiting s > 0
      then s\<lparr>waiting := waiting s - 1,
             received := received s @ [\<lparr>pu_UpdateID = 0, pu_Event = None, pu_Error = Some err\<rparr>],
             sent := sent s @ [\<lparr>pu_UpdateID = 0, pu_Event = None, pu_Error = Some err\<rparr>]\<rparr>
      else if length (chan s) < BufferSize (config s)
      then s\<lparr>chan := chan s @ [\<lparr>pu_UpdateID = 0, pu_Event = None, pu_Error = Some err\<rparr>],
             sent := sent s @ [\<lparr>pu_UpdateID = 0, pu_Event = None, pu_Error = Some err\<rparr>]\<rparr>
      else s)"
  by (simp add: sendUpdateError_def chansend_def)

lemma iteration_failure:
  assumes "f = NewRequestFailed m \<and> err = New m \<or> f = Do (DoFailed m) \<and> err = New m
           \<or> (\<exists>code body. f = Do (Response code body) \<and> code \<noteq> StatusOK
                 \<and> err = parseAPIError u code body)"
  shows "\<exists>s1. iteration u d f s = nap (sendUpdateError err s1)
            \<and> (s1 = s \<or> s1 = s\<lparr>offsets := offsets s @ [UpdateOffset (config s)]\<rparr>)"
  using assms by (auto simp: iteration_def Let_def)

lemma step_cursor:
  assumes "step u d a s = Some t" "UpdateOffset (config t) \<noteq> UpdateOffset (config s)"
  shows "a = Select_send
       \<and> (\<exists>e. sent t = sent s @ [\<lparr>pu_UpdateID = UpdateID e, pu_Event = Some e, pu_Error = None\<rparr>]
              \<and> UpdateOffset (config t) = UpdateID e + 1)"
proof (cases a)
  case (Fetch f)
  then show ?thesis using assms iteration_keeps [of u d f s]
    by (auto simp: step_def split: if_splits)
next
  case Select_send
  then show ?thesis using assms
    by (auto simp: step_def split: if_splits list.splits option.splits dest!: chansend_Some)
qed (use assms in \<open>auto simp: step_def split: if_splits list.splits\<close>)

lemma select_send_blocked:
  assumes "status s = Running" "pending s = Some e # rest"
  shows "step u d Select_send s = None \<longleftrightarrow> waiting s = 0 \<and> BufferSize (config s) \<le> length (chan s)"
  using assms chansend_None [of "\<lparr>pu_UpdateID = UpdateID e, pu_Event = Some e, pu_Error = None\<rparr>" s]
  by (auto simp: step_def split: option.splits)

lemma select_send_effect:
  assumes "pending s = Some e # rest" "step u d Select_send s = Some t"
  shows "sent t = sent s @ [\<lparr>pu_UpdateID = UpdateID e, pu_Event = Some e, pu_Error = None\<rparr>]
       \<and> pending t = rest \<and> UpdateOffset (config t) = UpdateID e + 1 \<and> status t = Running"
  using assms
  by (auto simp: step_def split: if_splits option.splits dest!: chansend_Some)

lemma ctx_done_enabled:
  assumes "status s = Running" "pending s = Some e # rest"
  shows "step u d Ctx_done s = None \<longleftrightarrow> \<not> cancelled s"
  using assms by (simp add: step_def)

lemma ctx_done_effect:
  assumes "step u d Ctx_done s = Some t"
  shows "status t = Stopped \<and> closed t \<and> sent t = sent s \<and> pending t = pending s
       \<and> config t = config s \<and> chan t = chan s \<and> received t = received s"
  using assms by (auto simp: step_def split: if_splits)

lemma fetch_needs_top:
  assumes "pending s \<noteq> []"
  shows "step u d (Fetch f) s = None"
  using assms by (simp add: step_def)

lemma nil_deref_needs_nil:
  assumes "pending s = Some e # rest"
  shows "step u d Nil_deref s = None"
  using assms by (simp add: step_def)

lemma stopped_final:
  assumes "status s = Stopped" "step u d a s = Some t"
  shows "status t = Stopped \<and> sent t = sent s \<and> pending t = pending s \<and> config t = config s"
  using assms by (cases a) (auto simp: step_def split: list.splits if_splits)

text \<open>The equations that evaluate a run on a given schedule.\<close>

lemmas run_simps = step_def iteration_def init_def DefaultPollingConfig_def StatusOK_def
  decode_body_def chansend_def sendUpdateError_def nap_def

section \<open>Claims about the polling worker\<close>

text \<open>
  Claim C8. At the top of the loop, with the context not done, a request that cannot be
  built, a request that fails, or a response whose status is not 200 makes the worker
  offer one record that carries only the error, without waiting: a parked receiver or
  room in the buffer takes it, otherwise it is dropped and the channel is left as it was.
  The transition is always possible (the worker does not block); after it the worker has
  slept the retry delay once, the configuration and with it the cursor are unchanged, and
  the worker is at the top of the loop again.
\<close>

theorem fetch_failure_step:
  assumes top: "status s = Running" "pending s = []" "\<not> cancelled s"
    and f: "f = NewRequestFailed m \<and> err = New m \<or> f = Do (DoFailed m) \<and> err = New m
           \<or> (\<exists>code body. f = Do (Response code body) \<and> code \<noteq> StatusOK
                 \<and> err = parseAPIError u code body)"
  shows "\<exists>t. step u d (Fetch f) s = Some t
       \<and> sent t = (if waiting s > 0 \<or> length (chan s) < BufferSize (config s)
                   then sent s @ [\<lparr>pu_UpdateID = 0, pu_Event = None, pu_Error = Some err\<rparr>]
                   else sent s)
       \<and> chan t = (if waiting s = 0 \<and> length (chan s) < BufferSize (config s)
                   then chan s @ [\<lparr>pu_UpdateID = 0, pu_Event = None, pu_Error = Some err\<rparr>]
                   else chan s)
       \<and> naps t = naps s @ [RetryDelay (config s)]
       \<and> config t = config s \<and> status t = Running \<and> pending t = [] \<and> \<not> cancelled t"
proof -
  obtain s1 where i: "iteration u d f s = nap (sendUpdateError err s1)"
    and s1: "s1 = s \<or> s1 = s\<lparr>offsets := offsets s @ [UpdateOffset (config s)]\<rparr>"
    using iteration_failure [OF f] by blast
  have st: "step u d (Fetch f) s = Some (nap (sendUpdateError err s1))"
    using top i by (simp add: step_def)
  show ?thesis
    unfolding st using s1 top
    by (auto simp: nap_def sendUpdateError_eq)
qed

theorem fetch_failure_step_witness:
  "map_option (\<lambda>t. (map pu_Error (chan t), naps t, UpdateOffset (config t), status t, pending t))
     (step (\<lambda>b. None) (\<lambda>b. Inl ''unused'') (Fetch (Do (DoFailed ''timeout'')))
        (init DefaultPollingConfig))
     = Some ([Some (New ''timeout'')], [1000], 0, Running, [])
   \<and> map_option (\<lambda>t. (map pu_Error (chan t), naps t, UpdateOffset (config t), status t, pending t))
     (step (\<lambda>b. None) (\<lambda>b. Inl ''unused'') (Fetch (Do (Response 503 (Inr ''busy''))))
        (init (DefaultPollingConfig\<lparr>BufferSize := 0\<rparr>)))
     = Some ([], [1000], 0, Running, [])
   \<and> parseAPIError (\<lambda>b. None) 503 (Inr ''busy'') = New ''API error 503: busy''"
proof -
  let ?u = "\<lambda>b :: string. None :: (int \<times> string) option"
  let ?d = "\<lambda>b :: string. Inl ''unused'' :: string + bool \<times> WebhookEvent option list"
  have 1: "\<exists>t. step ?u ?d (Fetch (Do (DoFailed ''timeout''))) (init DefaultPollingConfig) = Some t
       \<and> chan t = [\<lparr>pu_UpdateID = 0, pu_Event = None, pu_Error = Some (New ''timeout'')\<rparr>]
       \<and> naps t = [1000] \<and> UpdateOffset (config t) = 0 \<and> status t = Running \<and> pending t = []"
    using fetch_failure_step [of "init DefaultPollingConfig" "Do (DoFailed ''timeout'')" "''timeout''"
        "New ''timeout''" ?u ?d]
    by (auto simp: init_def DefaultPollingConfig_def)
  have 2: "\<exists>t. step ?u ?d (Fetch (Do (Response 503 (Inr ''busy''))))
                 (init (DefaultPollingConfig\<lparr>BufferSize := 0\<rparr>)) = Some t
       \<and> chan t = [] \<and> naps t = [1000] \<and> UpdateOffset (config t) = 0 \<and> status t = Running
       \<and> pending t = []"
    using fetch_failure_step [of "init (DefaultPollingConfig\<lparr>BufferSize := 0\<rparr>)"
        "Do (Response 503 (Inr ''busy''))" "''x''" "parseAPIError ?u 503 (Inr ''busy'')" ?u ?d]
    by (auto simp: init_def DefaultPollingConfig_def StatusOK_def)
  have 3: "parseAPIError ?u 503 (Inr ''busy'') = New ''API error 503: busy''"
    by (simp add: parseAPIError_def maxErrorSize_def itoa_nat.simps digit_def)
  from 1 2 3 show ?thesis by auto
qed

text \<open>
  Claim C1, as amended. In every run of the worker from its start the cursor is the one
  its sends give: the start cursor while no event has been sent, afterwards the update id
  of the last event sent plus one, in 64-bit arithmetic. A transition that changes the
  cursor is a send of the inner loop that has passed an event to the channel, and it sets
  the cursor to that event's id plus one. The cursor does not decrease from one state of
  a run to a later one provided the update ids of the events sent ascend from the start
  cursor (each at least the one before, the first at least the start cursor minus one,
  none the largest 64-bit number); the worker does not check that they do.
\<close>

theorem cursor_follows_sends:
  assumes "run u d as (init cfg) = Some s" and "run u d bs s = Some t"
  shows "UpdateOffset (config t) = cursor_after (UpdateOffset cfg) (events_of (sent t))
       \<and> (\<forall>a t'. step u d a t = Some t' \<and> UpdateOffset (config t') \<noteq> UpdateOffset (config t) \<longrightarrow>
             a = Select_send
           \<and> (\<exists>e. sent t' = sent t @ [\<lparr>pu_UpdateID = UpdateID e, pu_Event = Some e, pu_Error = None\<rparr>]
                  \<and> UpdateOffset (config t') = UpdateID e + 1))
       \<and> (ascending (UpdateOffset cfg) (events_of (sent t)) \<longrightarrow>
             sint (UpdateOffset (config s)) \<le> sint (UpdateOffset (config t)))"
proof (intro conjI allI impI)
  have inv_s: "worker_inv d cfg ([] @ as) s"
    using worker_inv_run [OF worker_inv_init assms(1)] .
  have inv_t: "worker_inv d cfg (([] @ as) @ bs) t"
    using worker_inv_run [OF inv_s assms(2)] .
  show c: "UpdateOffset (config t) = cursor_after (UpdateOffset cfg) (events_of (sent t))"
    using inv_t by (simp add: worker_inv_def)
  {
    assume a: "ascending (UpdateOffset cfg) (events_of (sent t))"
    obtain xs where xs: "sent t = sent s @ xs" using run_sent [OF assms(2)] by blast
    have "sint (cursor_after (UpdateOffset cfg) (events_of (sent s)))
            \<le> sint (cursor_after (UpdateOffset cfg) (events_of (sent s) @ events_of xs))"
      using a xs by (intro cursor_after_mono) (simp add: events_of_append)
    then show "sint (UpdateOffset (config s)) \<le> sint (UpdateOffset (config t))"
      using c inv_s xs by (simp add: worker_inv_def events_of_append)
  }
next
  fix a t'
  assume "step u d a t = Some t' \<and> UpdateOffset (config t') \<noteq> UpdateOffset (config t)"
  then show "a = Select_send"
    and "\<exists>e. sent t' = sent t @ [\<lparr>pu_UpdateID = UpdateID e, pu_Event = Some e, pu_Error = None\<rparr>]
              \<and> UpdateOffset (config t') = UpdateID e + 1"
    using step_cursor [of u d a t t'] by simp_all
qed

theorem cursor_follows_sends_witness:
  "map_option (\<lambda>s. (UpdateOffset (config s), map pu_UpdateID (sent s)))
     (run (\<lambda>b. None)
        (\<lambda>b. Inr (True, [Some \<lparr>UpdateID = 5, EventID = [], Type = ''message'', ChatID = [], Data = []\<rparr>,
                         Some \<lparr>UpdateID = 6, EventID = [], Type = ''message'', ChatID = [], Data = []\<rparr>]))
        [Fetch (Do (Response 200 (Inr ''{}''))), Select_send] (init DefaultPollingConfig)) = Some (6, [5])
   \<and> map_option (\<lambda>s. (UpdateOffset (config s), map pu_UpdateID (sent s)))
     (run (\<lambda>b. None)
        (\<lambda>b. Inr (True, [Some \<lparr>UpdateID = 5, EventID = [], Type = ''message'', ChatID = [], Data = []\<rparr>,
                         Some \<lparr>UpdateID = 6, EventID = [], Type = ''message'', ChatID = [], Data = []\<rparr>]))
        ([Fetch (Do (Response 200 (Inr ''{}''))), Select_send] @ [Select_send]) (init DefaultPollingConfig))
       = Some (7, [5, 6])
   \<and> ascending 0 [\<lparr>UpdateID = 5, EventID = [], Type = ''message'', ChatID = [], Data = []\<rparr>,
                    \<lparr>UpdateID = 6, EventID = [], Type = ''message'', ChatID = [], Data = []\<rparr>]
   \<and> sint (6 :: int64) \<le> sint (7 :: int64)"
proof -
  let ?d = "\<lambda>b :: string. Inr (True, [Some \<lparr>UpdateID = 5, EventID = [], Type = ''message'', ChatID = [], Data = []\<rparr>,
                         Some \<lparr>UpdateID = 6, EventID = [], Type = ''message'', ChatID = [], Data = []\<rparr>])
              :: string + bool \<times> WebhookEvent option list"
  let ?u = "\<lambda>b :: string. None :: (int \<times> string) option"
  let ?as = "[Fetch (Do (Response 200 (Inr ''{}''))), Select_send]"
  let ?s = "the (run ?u ?d ?as (init DefaultPollingConfig))"
  let ?t = "the (run ?u ?d [Select_send] ?s)"
  have r1: "run ?u ?d ?as (init DefaultPollingConfig) = Some ?s"
    by (simp add: run_simps)
  have r2: "run ?u ?d [Select_send] ?s = Some ?t"
    by (simp add: run_simps)
  have asc: "ascending (UpdateOffset DefaultPollingConfig) (events_of (sent ?t))"
    by (simp add: run_simps ascending_def events_of_def List.map_filter_def)
  have "sint (UpdateOffset (config ?s)) \<le> sint (UpdateOffset (config ?t))"
    using cursor_follows_sends [OF r1 r2] asc by blast
  then show ?thesis
    by (simp add: run_simps ascending_def)
qed

text \<open>
  The claim as stated (the cursor never decreases, for every sequence of fetch results)
  fails: when one response holds the update ids 5 and 3 in this order, the cursor is 6
  after the first send and 4 after the second.
\<close>

theorem cursor_decreases_counterexample:
  "map_option (\<lambda>s. UpdateOffset (config s))
     (run (\<lambda>b. None)
        (\<lambda>b. Inr (True, [Some \<lparr>UpdateID = 5, EventID = [], Type = ''message'', ChatID = [], Data = []\<rparr>,
                         Some \<lparr>UpdateID = 3, EventID = [], Type = ''message'', ChatID = [], Data = []\<rparr>]))
        [Fetch (Do (Response 200 (Inr ''{}''))), Select_send] (init DefaultPollingConfig)) = Some 6
   \<and> map_option (\<lambda>s. UpdateOffset (config s))
     (run (\<lambda>b. None)
        (\<lambda>b. Inr (True, [Some \<lparr>UpdateID = 5, EventID = [], Type = ''message'', ChatID = [], Data = []\<rparr>,
                         Some \<lparr>UpdateID = 3, EventID = [], Type = ''message'', ChatID = [], Data = []\<rparr>]))
        [Fetch (Do (Response 200 (Inr ''{}''))), Select_send, Select_send] (init DefaultPollingConfig)) = Some 4
   \<and> sint (4 :: int64) < sint (6 :: int64)"
  by (simp add: run_simps)

text \<open>
  Claim C3, as amended. In every run of the worker from its start, the events sent so far
  followed by the pending ones are exactly the events decoded so far, in the order of
  arrival: none is dropped, skipped or reordered, and the receivers take the records in
  the order of the sends. While an event is pending the worker can do only two things.
  It can send it, which is impossible exactly when no receiver is parked and the buffer is
  full (the worker then waits; it neither drops the event nor fetches again), and which
  passes that event to the channel and moves the cursor to its id plus one. Or it can
  take the cancellation, which is possible exactly when the context is cancelled, and
  which stops the worker with nothing more sent, the remaining events still pending and
  the cursor where it was; a stopped worker stays so. When the context is cancelled and
  the channel can take the event, both are possible and \<open>select\<close> may take either.
\<close>

theorem events_sent_in_order:
  assumes "run u d as (init cfg) = Some s"
  shows "map Some (events_of (sent s)) @ pending s = fetched d as
       \<and> received s @ chan s = sent s
       \<and> (\<forall>e rest. status s = Running \<and> pending s = Some e # rest \<longrightarrow>
            (step u d Select_send s = None
               \<longleftrightarrow> waiting s = 0 \<and> BufferSize (config s) \<le> length (chan s))
          \<and> (step u d Ctx_done s = None \<longleftrightarrow> \<not> cancelled s)
          \<and> (\<forall>f. step u d (Fetch f) s = None) \<and> step u d Nil_deref s = None
          \<and> (\<forall>t. step u d Select_send s = Some t \<longrightarrow>
                sent t = sent s @ [\<lparr>pu_UpdateID = UpdateID e, pu_Event = Some e, pu_Error = None\<rparr>]
              \<and> pending t = rest \<and> UpdateOffset (config t) = UpdateID e + 1)
          \<and> (\<forall>t. step u d Ctx_done s = Some t \<longrightarrow>
                status t = Stopped \<and> closed t \<and> sent t = sent s \<and> pending t = pending s
              \<and> config t = config s))
       \<and> (\<forall>a t. status s = Stopped \<and> step u d a s = Some t \<longrightarrow>
            status t = Stopped \<and> sent t = sent s \<and> pending t = pending s \<and> config t = config s)"
proof -
  have i: "worker_inv d cfg ([] @ as) s"
    using worker_inv_run [OF worker_inv_init assms] .
  have 1: "map Some (events_of (sent s)) @ pending s = fetched d as"
    and 2: "received s @ chan s = sent s"
    using i by (auto simp: worker_inv_def chan_inv_def)
  have 3: "\<forall>e rest. status s = Running \<and> pending s = Some e # rest \<longrightarrow>
            (step u d Select_send s = None
               \<longleftrightarrow> waiting s = 0 \<and> BufferSize (config s) \<le> length (chan s))
          \<and> (step u d Ctx_done s = None \<longleftrightarrow> \<not> cancelled s)
          \<and> (\<forall>f. step u d (Fetch f) s = None) \<and> step u d Nil_deref s = None
          \<and> (\<forall>t. step u d Select_send s = Some t \<longrightarrow>
                sent t = sent s @ [\<lparr>pu_UpdateID = UpdateID e, pu_Event = Some e, pu_Error = None\<rparr>]
              \<and> pending t = rest \<and> UpdateOffset (config t) = UpdateID e + 1)
          \<and> (\<forall>t. step u d Ctx_done s = Some t \<longrightarrow>
                status t = Stopped \<and> closed t \<and> sent t = sent s \<and> pending t = pending s
              \<and> config t = config s)"
  proof (intro allI impI)
    fix e rest
    assume a: "status s = Running \<and> pending s = Some e # rest"
    then have r: "status s = Running" and p: "pending s = Some e # rest" by simp_all
    have ne: "pending s \<noteq> []" using p by simp
    show "(step u d Select_send s = None
               \<longleftrightarrow> waiting s = 0 \<and> BufferSize (config s) \<le> length (chan s))
          \<and> (step u d Ctx_done s = None \<longleftrightarrow> \<not> cancelled s)
          \<and> (\<forall>f. step u d (Fetch f) s = None) \<and> step u d Nil_deref s = None
          \<and> (\<forall>t. step u d Select_send s = Some t \<longrightarrow>
                sent t = sent s @ [\<lparr>pu_UpdateID = UpdateID e, pu_Event = Some e, pu_Error = None\<rparr>]
              \<and> pending t = rest \<and> UpdateOffset (config t) = UpdateID e + 1)
          \<and> (\<forall>t. step u d Ctx_done s = Some t \<longrightarrow>
                status t = Stopped \<and> closed t \<and> sent t = sent s \<and> pending t = pending s
              \<and> config t = config s)"
      using select_send_blocked [OF r p, of u d] ctx_done_enabled [OF r p, of u d]
        fetch_needs_top [OF ne, of u d] select_send_effect [OF p, of u d]
        ctx_done_effect [of u d s] nil_deref_needs_nil [OF p, of u d]
      by blast
  qed
  have 4: "\<forall>a t. status s = Stopped \<and> step u d a s = Some t \<longrightarrow>
            status t = Stopped \<and> sent t = sent s \<and> pending t = pending s \<and> config t = config s"
    using stopped_final [of s u d] by blast
  show ?thesis using 1 2 3 4 by blast
qed

theorem events_sent_in_order_witness:
  "step (\<lambda>b. None)
     (\<lambda>b. Inr (True, [Some \<lparr>UpdateID = 1, EventID = [], Type = ''message'', ChatID = [], Data = []\<rparr>,
                      Some \<lparr>UpdateID = 2, EventID = [], Type = ''message'', ChatID = [], Data = []\<rparr>]))
     Select_send
     (the (run (\<lambda>b. None)
        (\<lambda>b. Inr (True, [Some \<lparr>UpdateID = 1, EventID = [], Type = ''message'', ChatID = [], Data = []\<rparr>,
                         Some \<lparr>UpdateID = 2, EventID = [], Type = ''message'', ChatID = [], Data = []\<rparr>]))
        [Fetch (Do (Response 200 (Inr ''{}''))), Select_send]
        (init (DefaultPollingConfig\<lparr>BufferSize := 1\<rparr>)))) = None
   \<and> map_option (\<lambda>s. (map pu_UpdateID (received s), pending s, UpdateOffset (config s)))
     (run (\<lambda>b. None)
        (\<lambda>b. Inr (True, [Some \<lparr>UpdateID = 1, EventID = [], Type = ''message'', ChatID = [], Data = []\<rparr>,
                         Some \<lparr>UpdateID = 2, EventID = [], Type = ''message'', ChatID = [], Data = []\<rparr>]))
        [Fetch (Do (Response 200 (Inr ''{}''))), Select_send, Receive, Select_send, Receive]
        (init (DefaultPollingConfig\<lparr>BufferSize := 1\<rparr>)))
     = Some ([1, 2], [], 3)"
proof -
  let ?d = "\<lambda>b :: string. Inr (True, [Some \<lparr>UpdateID = 1, EventID = [], Type = ''message'', ChatID = [], Data = []\<rparr>,
                         Some \<lparr>UpdateID = 2, EventID = [], Type = ''message'', ChatID = [], Data = []\<rparr>])
              :: string + bool \<times> WebhookEvent option list"
  let ?u = "\<lambda>b :: string. None :: (int \<times> string) option"
  let ?as = "[Fetch (Do (Response 200 (Inr ''{}''))), Select_send]"
  let ?cfg = "DefaultPollingConfig\<lparr>BufferSize := 1\<rparr>"
  let ?s = "the (run ?u ?d ?as (init ?cfg))"
  have r: "run ?u ?d ?as (init ?cfg) = Some ?s"
    by (simp add: run_simps)
  have p: "status ?s = Running
           \<and> pending ?s = Some \<lparr>UpdateID = 2, EventID = [], Type = ''message'', ChatID = [], Data = []\<rparr> # []"
    by (simp add: run_simps)
  have full: "waiting ?s = 0 \<and> BufferSize (config ?s) \<le> length (chan ?s)"
    by (simp add: run_simps)
  have "step ?u ?d Select_send ?s = None"
    using events_sent_in_order [OF r] p full by blast
  moreover have "map_option (\<lambda>s. (map pu_UpdateID (received s), pending s, UpdateOffset (config s)))
     (run ?u ?d [Fetch (Do (Response 200 (Inr ''{}''))), Select_send, Receive, Select_send, Receive]
        (init ?cfg)) = Some ([1, 2], [], 3)"
    by (simp add: run_simps)
  ultimately show ?thesis by blast
qed

text \<open>
  The claim as stated (once cancellation fires in the middle of a batch the worker stops
  without delivering the remaining events) fails: with room in the buffer the \<open>select\<close>
  may still take the send after the cancellation. Here the second event of a batch is
  sent, and the cursor moved past it, after the context was cancelled.
\<close>

theorem send_after_cancel_counterexample:
  "map_option (\<lambda>s. (cancelled s, status s, map pu_UpdateID (sent s), UpdateOffset (config s)))
     (run (\<lambda>b. None)
        (\<lambda>b. Inr (True, [Some \<lparr>UpdateID = 1, EventID = [], Type = ''message'', ChatID = [], Data = []\<rparr>,
                         Some \<lparr>UpdateID = 2, EventID = [], Type = ''message'', ChatID = [], Data = []\<rparr>]))
        [Fetch (Do (Response 200 (Inr ''{}''))), Select_send, Cancel] (init DefaultPollingConfig))
     = Some (True, Running, [1], 2)
   \<and> map_option (\<lambda>s. (cancelled s, status s, map pu_UpdateID (sent s), UpdateOffset (config s)))
     (run (\<lambda>b. None)
        (\<lambda>b. Inr (True, [Some \<lparr>UpdateID = 1, EventID = [], Type = ''message'', ChatID = [], Data = []\<rparr>,
                         Some \<lparr>UpdateID = 2, EventID = [], Type = ''message'', ChatID = [], Data = []\<rparr>]))
        [Fetch (Do (Response 200 (Inr ''{}''))), Select_send, Cancel, Select_send] (init DefaultPollingConfig))
     = Some (True, Running, [1, 2], 3)"
  by (simp add: run_simps)

end
